theory Spec2Isabelle
  imports Main "HOL-Library.Word" "HOL-Library.Monad_Syntax"
begin

unbundle bit_operations_syntax

section \<open>The tiny8 CHIP-8 interpreter (include/tiny8.h)\<close>

text \<open>
  The interpreter class is embedded as a record of its data members, every
  instruction body (the lambdas registered by the constructor) as a function from
  interpreter states to interpreter states. A result of \<open>None\<close> stands for the runs
  the C++ program does not define or aborts: an array access outside the array's
  declared size, and \<open>unimplemented\<close> (which prints and asserts false).
\<close>

type_synonym u8 = "8 word"
type_synonym u16 = "16 word"

subsection \<open>Constants\<close>

definition c_maxMemory :: nat where "c_maxMemory = 0x1000"
definition c_maxStack :: nat where "c_maxStack = 0x400"
definition c_romStartAddress :: u16 where "c_romStartAddress = 0x200"
definition c_fontStartAddress :: nat where "c_fontStartAddress = 0x0"

definition c_fontset :: "u8 list" where
  "c_fontset =
   [0xF0, 0x90, 0x90, 0x90, 0xF0,
    0x20, 0x60, 0x20, 0x20, 0x70,
    0xF0, 0x10, 0xF0, 0x80, 0xF0,
    0xF0, 0x10, 0xF0, 0x10, 0xF0,
    0x90, 0x90, 0xF0, 0x10, 0x10,
    0xF0, 0x80, 0xF0, 0x10, 0xF0,
    0xF0, 0x80, 0xF0, 0x90, 0xF0,
    0xF0, 0x10, 0x20, 0x40, 0x40,
    0xF0, 0x90, 0xF0, 0x90, 0xF0,
    0xF0, 0x90, 0xF0, 0x10, 0xF0,
    0xF0, 0x90, 0xF0, 0x90, 0x90,
    0xE0, 0x90, 0xE0, 0x90, 0xE0,
    0xF0, 0x80, 0x80, 0x80, 0xF0,
    0xE0, 0x90, 0x90, 0x90, 0xE0,
    0xF0, 0x80, 0xF0, 0x80, 0xF0,
    0xF0, 0x80, 0xF0, 0x80, 0x80]"

definition c_displayWidth :: nat where "c_displayWidth = 64"
definition c_displayHeight :: nat where "c_displayHeight = 32"
definition c_displaySize :: nat where "c_displaySize = c_displayWidth * c_displayHeight"
definition c_maxKeys :: nat where "c_maxKeys = 16"

subsection \<open>Data members\<close>

text \<open>A C array is a list whose length is the array's declared size (\<open>sized\<close> below).\<close>

record memory =
  m_data :: "u8 list"
  m_stack :: "u16 list"

record registers =
  m_index :: u16
  m_sp :: u16
  m_pc :: u16
  m_v :: "u8 list"

record timers =
  m_delay :: u8
  m_sound :: u8

record input =
  m_key :: "u8 list"
  m_prev_key :: "u8 list"

record decode_state =
  m_opcode :: u16
  m_x :: u8
  m_y :: u8
  m_n :: u8
  m_nn :: u8
  m_nnn :: u16

text \<open>
  \<open>m_display\<close> is the array \<open>display::m_data\<close>. \<open>m_currentInstruction\<close> points into
  the dispatch table; the instruction it points to is named by the two keys it was
  registered under (family key, instruction key). The table itself (\<open>m_families\<close>) is
  built once by the constructor and is a constant below.
\<close>

record interpreter =
  m_memory :: memory
  m_display :: "u8 list"
  m_registers :: registers
  m_timers :: timers
  m_input :: input
  m_state :: decode_state
  m_previousState :: decode_state
  m_frame_end :: int
  m_isWaitingForInput :: bool
  m_flags :: u8
  m_currentInstruction :: "(u8 \<times> u8) option"

subsection \<open>Compatibility flags\<close>

definition shift_legacy :: u8 where "shift_legacy = push_bit 0 1"
definition store_load_legacy :: u8 where "store_load_legacy = push_bit 1 1"
definition jump_offset_legacy :: u8 where "jump_offset_legacy = push_bit 2 1"
definition logical_legacy :: u8 where "logical_legacy = push_bit 3 1"
definition disp_sync_legacy :: u8 where "disp_sync_legacy = push_bit 4 1"
definition draw_legacy :: u8 where "draw_legacy = push_bit 5 1"
definition all_legacy :: u8 where
  "all_legacy = shift_legacy OR store_load_legacy OR jump_offset_legacy OR logical_legacy
     OR disp_sync_legacy OR draw_legacy"
definition chip8_original :: u8 where "chip8_original = all_legacy"
definition chip8_schip :: u8 where "chip8_schip = draw_legacy"
definition chip8_xochip :: u8 where
  "chip8_xochip = store_load_legacy OR jump_offset_legacy OR shift_legacy"

text \<open>\<open>m_flags & flags::f\<close> used as a condition.\<close>

definition has_flag :: "interpreter \<Rightarrow> u8 \<Rightarrow> bool" where
  "has_flag st f = (m_flags st AND f \<noteq> 0)"

subsection \<open>Array access\<close>

text \<open>Reading and writing an array element; outside the array the run is undefined.\<close>

definition rd :: "'a list \<Rightarrow> nat \<Rightarrow> 'a option" where
  "rd xs i = (if i < length xs then Some (xs ! i) else None)"

definition wr :: "'a list \<Rightarrow> nat \<Rightarrow> 'a \<Rightarrow> 'a list option" where
  "wr xs i v = (if i < length xs then Some (xs[i := v]) else None)"

text \<open>\<open>memcpy(&dst[doff], &src[soff], cnt)\<close> on arrays of the same element type.\<close>

definition memcpy :: "'a list \<Rightarrow> nat \<Rightarrow> 'a list \<Rightarrow> nat \<Rightarrow> nat \<Rightarrow> 'a list option" where
  "memcpy dst doff src soff cnt =
     (if doff + cnt \<le> length dst \<and> soff + cnt \<le> length src
      then Some (take doff dst @ take cnt (drop soff src) @ drop (doff + cnt) dst)
      else None)"

text \<open>\<open>m_registers.m_v[i]\<close> read and written.\<close>

definition get_v :: "interpreter \<Rightarrow> u8 \<Rightarrow> u8 option" where
  "get_v st i = rd (m_v (m_registers st)) (unat i)"

definition set_v :: "u8 \<Rightarrow> u8 \<Rightarrow> interpreter \<Rightarrow> interpreter option" where
  "set_v i v st =
     map_option (\<lambda>vs. st\<lparr>m_registers := (m_registers st)\<lparr>m_v := vs\<rparr>\<rparr>)
       (wr (m_v (m_registers st)) (unat i) v)"

definition set_pc :: "u16 \<Rightarrow> interpreter \<Rightarrow> interpreter" where
  "set_pc a st = st\<lparr>m_registers := (m_registers st)\<lparr>m_pc := a\<rparr>\<rparr>"

definition set_index :: "u16 \<Rightarrow> interpreter \<Rightarrow> interpreter" where
  "set_index a st = st\<lparr>m_registers := (m_registers st)\<lparr>m_index := a\<rparr>\<rparr>"

text \<open>\<open>m_registers.m_pc += 2\<close> when the condition holds (the skip instructions).\<close>

definition skip_if :: "bool \<Rightarrow> interpreter \<Rightarrow> interpreter" where
  "skip_if c st = (if c then set_pc (m_pc (m_registers st) + 2) st else st)"

text \<open>
  \<open>update_flag\<close>: \<open>m_registers.m_v[15] = value\<close>. The index 15 is inside the declared
  array of 16 registers.
\<close>

definition update_flag :: "u8 \<Rightarrow> interpreter \<Rightarrow> interpreter" where
  "update_flag v st = st\<lparr>m_registers := (m_registers st)\<lparr>m_v := (m_v (m_registers st))[15 := v]\<rparr>\<rparr>"

text \<open>A C++ \<open>bool\<close> converted to \<open>uint8_t\<close>.\<close>

definition of_bool8 :: "bool \<Rightarrow> u8" where
  "of_bool8 b = (if b then 1 else 0)"

subsection \<open>Loops\<close>

text \<open>
  \<open>for (i = ...; ...; ++i) body\<close> over the listed values of \<open>i\<close>, threading the loop's
  variables; it stops with \<open>None\<close> as soon as a body does.
\<close>

fun for_each :: "nat list \<Rightarrow> (nat \<Rightarrow> 's \<Rightarrow> 's option) \<Rightarrow> 's \<Rightarrow> 's option" where
  "for_each [] body s = Some s"
| "for_each (i # rest) body s =
     (case body i s of None \<Rightarrow> None | Some s' \<Rightarrow> for_each rest body s')"

subsection \<open>Instruction bodies\<close>

text \<open>
  \<open>body_FF_KK\<close> is the lambda of \<open>add_instruction(0xFF, 0xKK, mask, ...)\<close>, in the
  constructor's order.
\<close>

definition body_00_e0 :: "interpreter \<Rightarrow> interpreter option" where
  "body_00_e0 st = Some (st\<lparr>m_display := replicate (length (m_display st)) 0\<rparr>)"

definition body_00_ee :: "interpreter \<Rightarrow> interpreter option" where
  "body_00_ee st = do {
     let sp = m_sp (m_registers st) - 1;
     a \<leftarrow> rd (m_stack (m_memory st)) (unat sp);
     Some (st\<lparr>m_registers := (m_registers st)\<lparr>m_sp := sp, m_pc := a\<rparr>\<rparr>)
   }"

text \<open>\<open>unimplemented(m_state.m_opcode)\<close>: prints the opcode and asserts false.\<close>

definition unimplemented :: "u16 \<Rightarrow> interpreter option" where
  "unimplemented opcode = None"

definition body_00_00 :: "interpreter \<Rightarrow> interpreter option" where
  "body_00_00 st = unimplemented (m_opcode (m_state st))"

definition body_10_00 :: "interpreter \<Rightarrow> interpreter option" where
  "body_10_00 st = Some (set_pc (m_nnn (m_state st)) st)"

definition body_20_00 :: "interpreter \<Rightarrow> interpreter option" where
  "body_20_00 st = do {
     let sp = m_sp (m_registers st);
     stack \<leftarrow> wr (m_stack (m_memory st)) (unat sp) (m_pc (m_registers st));
     Some (st\<lparr>m_memory := (m_memory st)\<lparr>m_stack := stack\<rparr>,
              m_registers := (m_registers st)\<lparr>m_sp := sp + 1, m_pc := m_nnn (m_state st)\<rparr>\<rparr>)
   }"

definition body_30_00 :: "interpreter \<Rightarrow> interpreter option" where
  "body_30_00 st = do {
     vx \<leftarrow> get_v st (m_x (m_state st));
     Some (skip_if (vx = m_nn (m_state st)) st)
   }"

definition body_40_00 :: "interpreter \<Rightarrow> interpreter option" where
  "body_40_00 st = do {
     vx \<leftarrow> get_v st (m_x (m_state st));
     Some (skip_if (vx \<noteq> m_nn (m_state st)) st)
   }"

definition body_50_00 :: "interpreter \<Rightarrow> interpreter option" where
  "body_50_00 st = do {
     vx \<leftarrow> get_v st (m_x (m_state st));
     vy \<leftarrow> get_v st (m_y (m_state st));
     Some (skip_if (vx = vy) st)
   }"

definition body_60_00 :: "interpreter \<Rightarrow> interpreter option" where
  "body_60_00 st = set_v (m_x (m_state st)) (m_nn (m_state st)) st"

definition body_70_00 :: "interpreter \<Rightarrow> interpreter option" where
  "body_70_00 st = do {
     vx \<leftarrow> get_v st (m_x (m_state st));
     set_v (m_x (m_state st)) (vx + m_nn (m_state st)) st
   }"

definition body_80_00 :: "interpreter \<Rightarrow> interpreter option" where
  "body_80_00 st = do {
     vy \<leftarrow> get_v st (m_y (m_state st));
     set_v (m_x (m_state st)) vy st
   }"

text \<open>
  The three logical instructions differ in the operator only:
  \<open>m_v[x] = m_v[x] op m_v[y]; if (m_flags & flags::logical_legacy) update_flag(0);\<close>
\<close>

definition logical :: "(u8 \<Rightarrow> u8 \<Rightarrow> u8) \<Rightarrow> interpreter \<Rightarrow> interpreter option" where
  "logical f st = do {
     vx \<leftarrow> get_v st (m_x (m_state st));
     vy \<leftarrow> get_v st (m_y (m_state st));
     st1 \<leftarrow> set_v (m_x (m_state st)) (f vx vy) st;
     Some (if has_flag st1 logical_legacy then update_flag 0 st1 else st1)
   }"

definition body_80_01 :: "interpreter \<Rightarrow> interpreter option" where
  "body_80_01 st = logical (\<lambda>a b. a OR b) st"

definition body_80_02 :: "interpreter \<Rightarrow> interpreter option" where
  "body_80_02 st = logical (\<lambda>a b. a AND b) st"

definition body_80_03 :: "interpreter \<Rightarrow> interpreter option" where
  "body_80_03 st = logical (\<lambda>a b. a XOR b) st"

text \<open>\<open>uint16_t const sum = m_v[x] + m_v[y]\<close>: the operands are promoted before the sum.\<close>

definition body_80_04 :: "interpreter \<Rightarrow> interpreter option" where
  "body_80_04 st = do {
     vx \<leftarrow> get_v st (m_x (m_state st));
     vy \<leftarrow> get_v st (m_y (m_state st));
     let sum = (ucast vx + ucast vy :: u16);
     st1 \<leftarrow> set_v (m_x (m_state st)) (ucast (sum AND 0xff)) st;
     Some (update_flag (of_bool8 (sum > 255)) st1)
   }"

text \<open>
  \<open>int16_t const sub = a - b\<close> on promoted operands: a 16-bit two's complement value,
  read signed by \<open>sub > 0\<close>.
\<close>

definition subtract :: "u8 \<Rightarrow> u8 \<Rightarrow> interpreter \<Rightarrow> interpreter option" where
  "subtract a b st = do {
     let sub = (ucast a - ucast b :: u16);
     st1 \<leftarrow> set_v (m_x (m_state st)) (ucast (sub AND 0xff)) st;
     Some (update_flag (of_bool8 (0 < sint sub)) st1)
   }"

definition body_80_05 :: "interpreter \<Rightarrow> interpreter option" where
  "body_80_05 st = do {
     vx \<leftarrow> get_v st (m_x (m_state st));
     vy \<leftarrow> get_v st (m_y (m_state st));
     subtract vx vy st
   }"

definition body_80_06 :: "interpreter \<Rightarrow> interpreter option" where
  "body_80_06 st = do {
     st1 \<leftarrow> (if has_flag st shift_legacy
             then do { vy \<leftarrow> get_v st (m_y (m_state st)); set_v (m_x (m_state st)) vy st }
             else Some st);
     prev \<leftarrow> get_v st1 (m_x (m_state st1));
     st2 \<leftarrow> set_v (m_x (m_state st1)) (drop_bit 1 prev) st1;
     Some (update_flag (prev AND 1) st2)
   }"

definition body_80_07 :: "interpreter \<Rightarrow> interpreter option" where
  "body_80_07 st = do {
     vx \<leftarrow> get_v st (m_x (m_state st));
     vy \<leftarrow> get_v st (m_y (m_state st));
     subtract vy vx st
   }"

definition body_80_0e :: "interpreter \<Rightarrow> interpreter option" where
  "body_80_0e st = do {
     st1 \<leftarrow> (if has_flag st shift_legacy
             then do { vy \<leftarrow> get_v st (m_y (m_state st)); set_v (m_x (m_state st)) vy st }
             else Some st);
     prev \<leftarrow> get_v st1 (m_x (m_state st1));
     st2 \<leftarrow> set_v (m_x (m_state st1)) (push_bit 1 prev) st1;
     Some (update_flag (drop_bit 7 prev AND 1) st2)
   }"

definition body_90_00 :: "interpreter \<Rightarrow> interpreter option" where
  "body_90_00 st = do {
     vx \<leftarrow> get_v st (m_x (m_state st));
     vy \<leftarrow> get_v st (m_y (m_state st));
     Some (skip_if (vx \<noteq> vy) st)
   }"

definition body_a0_00 :: "interpreter \<Rightarrow> interpreter option" where
  "body_a0_00 st = Some (set_index (m_nnn (m_state st)) st)"

definition body_b0_00 :: "interpreter \<Rightarrow> interpreter option" where
  "body_b0_00 st = do {
     v \<leftarrow> get_v st (if has_flag st jump_offset_legacy then 0 else m_x (m_state st));
     Some (set_pc (m_nnn (m_state st) + ucast v) st)
   }"

text \<open>\<open>rnd\<close> is the value \<open>std::rand()\<close> returns.\<close>

definition body_c0_00 :: "nat \<Rightarrow> interpreter \<Rightarrow> interpreter option" where
  "body_c0_00 rnd st = set_v (m_x (m_state st)) (of_nat (rnd mod 255) AND m_nn (m_state st)) st"

text \<open>
  The draw instruction. The loop variables are the display array and \<open>any_invalidated\<close>.
  \<open>coordx\<close>, \<open>coordy\<close>, \<open>coordxx\<close> and \<open>coordyy\<close> are \<open>size_t\<close> values far from
  overflow, so natural numbers; \<open>legacy\<close> is \<open>m_flags & flags::draw_legacy\<close>.
\<close>

definition draw_pixel ::
  "bool \<Rightarrow> nat \<Rightarrow> nat \<Rightarrow> u8 \<Rightarrow> nat \<Rightarrow> u8 list \<times> u8 \<Rightarrow> (u8 list \<times> u8) option" where
  "draw_pixel legacy coordx coordyy sprite x acc =
     (let coordxx = coordx + x in
      if legacy \<and> coordxx > c_displayWidth then Some acc
      else do {
        let coordxx = coordxx AND (c_displayWidth - 1);
        let sprite_volumn_value = of_bool8 (sprite AND push_bit (7 - x) 1 \<noteq> 0);
        let display_data_index = coordyy * c_displayWidth + coordxx;
        previous_display_value \<leftarrow> rd (fst acc) display_data_index;
        let new_display_value = previous_display_value XOR sprite_volumn_value;
        disp \<leftarrow> wr (fst acc) display_data_index new_display_value;
        Some (disp, snd acc OR of_bool8 (previous_display_value \<noteq> 0 \<and> new_display_value = 0))
      })"

definition draw_row ::
  "bool \<Rightarrow> nat \<Rightarrow> nat \<Rightarrow> u8 list \<Rightarrow> nat \<Rightarrow> nat \<Rightarrow> u8 list \<times> u8 \<Rightarrow> (u8 list \<times> u8) option" where
  "draw_row legacy coordx coordy mem index y acc =
     (let coordyy = coordy + y in
      if legacy \<and> coordyy > c_displayHeight then Some acc
      else do {
        let coordyy = coordyy AND (c_displayHeight - 1);
        sprite \<leftarrow> rd mem (index + y);
        for_each [0..<8] (draw_pixel legacy coordx coordyy sprite) acc
      })"

definition body_d0_00 :: "interpreter \<Rightarrow> interpreter option" where
  "body_d0_00 st = do {
     vx \<leftarrow> get_v st (m_x (m_state st));
     vy \<leftarrow> get_v st (m_y (m_state st));
     let coordx = unat vx AND (c_displayWidth - 1);
     let coordy = unat vy AND (c_displayHeight - 1);
     acc \<leftarrow> for_each [0..<unat (m_n (m_state st))]
              (draw_row (has_flag st draw_legacy) coordx coordy (m_data (m_memory st))
                 (unat (m_index (m_registers st))))
              (m_display st, 0);
     Some (update_flag (snd acc) (st\<lparr>m_display := fst acc\<rparr>))
   }"

definition body_e0_9e :: "interpreter \<Rightarrow> interpreter option" where
  "body_e0_9e st = do {
     vx \<leftarrow> get_v st (m_x (m_state st));
     k \<leftarrow> rd (m_key (m_input st)) (unat vx);
     Some (skip_if (k \<noteq> 0) st)
   }"

definition body_e0_a1 :: "interpreter \<Rightarrow> interpreter option" where
  "body_e0_a1 st = do {
     vx \<leftarrow> get_v st (m_x (m_state st));
     k \<leftarrow> rd (m_key (m_input st)) (unat vx);
     Some (skip_if (k = 0) st)
   }"

definition body_f0_07 :: "interpreter \<Rightarrow> interpreter option" where
  "body_f0_07 st = set_v (m_x (m_state st)) (m_delay (m_timers st)) st"

text \<open>
  The key wait: the loop runs over the indices of \<open>m_key\<close> (all inside the two arrays)
  and breaks at the first key that differs from its previous state; \<open>keyPressed\<close> is
  set only if that key is now 0.
\<close>

definition body_f0_0a :: "interpreter \<Rightarrow> interpreter option" where
  "body_f0_0a st =
     (case find (\<lambda>i. m_key (m_input st) ! i XOR m_prev_key (m_input st) ! i \<noteq> 0) [0..<c_maxKeys] of
        None \<Rightarrow> Some (st\<lparr>m_isWaitingForInput := True\<rparr>)
      | Some i \<Rightarrow> do {
          st1 \<leftarrow> set_v (m_x (m_state st)) (of_nat i) st;
          Some (st1\<lparr>m_isWaitingForInput := (m_key (m_input st) ! i \<noteq> 0)\<rparr>)
        })"

definition body_f0_15 :: "interpreter \<Rightarrow> interpreter option" where
  "body_f0_15 st = do {
     vx \<leftarrow> get_v st (m_x (m_state st));
     Some (st\<lparr>m_timers := (m_timers st)\<lparr>m_delay := vx\<rparr>\<rparr>)
   }"

definition body_f0_18 :: "interpreter \<Rightarrow> interpreter option" where
  "body_f0_18 st = do {
     vx \<leftarrow> get_v st (m_x (m_state st));
     Some (st\<lparr>m_timers := (m_timers st)\<lparr>m_sound := vx\<rparr>\<rparr>)
   }"

text \<open>The register is read again after \<open>update_flag\<close>, as the source does.\<close>

definition body_f0_1e :: "interpreter \<Rightarrow> interpreter option" where
  "body_f0_1e st = do {
     vx \<leftarrow> get_v st (m_x (m_state st));
     let st1 = update_flag (of_bool8 (unat (m_index (m_registers st)) + unat vx > 0xfff)) st;
     vx1 \<leftarrow> get_v st1 (m_x (m_state st1));
     Some (set_index (m_index (m_registers st1) + ucast vx1) st1)
   }"

text \<open>\<open>m_memory.m_font[i]\<close> is \<open>m_memory.m_data[c_fontStartAddress + i]\<close>.\<close>

definition m_font :: "memory \<Rightarrow> nat \<Rightarrow> u8 option" where
  "m_font m i = rd (m_data m) (c_fontStartAddress + i)"

definition body_f0_29 :: "interpreter \<Rightarrow> interpreter option" where
  "body_f0_29 st = do {
     b \<leftarrow> m_font (m_memory st) (unat (m_x (m_state st)));
     Some (set_index (m_index (m_registers st) + ucast b) st)
   }"

definition set_data :: "u8 list \<Rightarrow> interpreter \<Rightarrow> interpreter" where
  "set_data d st = st\<lparr>m_memory := (m_memory st)\<lparr>m_data := d\<rparr>\<rparr>"

definition body_f0_33 :: "interpreter \<Rightarrow> interpreter option" where
  "body_f0_33 st = do {
     vx \<leftarrow> get_v st (m_x (m_state st));
     let v = unat vx;
     let i = unat (m_index (m_registers st));
     d0 \<leftarrow> wr (m_data (m_memory st)) (i + 0) (of_nat ((v mod 1000) div 100));
     d1 \<leftarrow> wr d0 (i + 1) (of_nat ((v mod 100) div 10));
     d2 \<leftarrow> wr d1 (i + 2) (of_nat (v mod 10));
     Some (set_data d2 st)
   }"

definition body_f0_55 :: "interpreter \<Rightarrow> interpreter option" where
  "body_f0_55 st = do {
     d \<leftarrow> memcpy (m_data (m_memory st)) (unat (m_index (m_registers st)))
            (m_v (m_registers st)) 0 (unat (m_x (m_state st)) + 1);
     let st1 = set_data d st;
     Some (if has_flag st1 store_load_legacy
           then set_index (m_index (m_registers st1) + 1) st1 else st1)
   }"

definition body_f0_65 :: "interpreter \<Rightarrow> interpreter option" where
  "body_f0_65 st = do {
     vs \<leftarrow> memcpy (m_v (m_registers st)) 0
             (m_data (m_memory st)) (unat (m_index (m_registers st))) (unat (m_x (m_state st)) + 1);
     let st1 = st\<lparr>m_registers := (m_registers st)\<lparr>m_v := vs\<rparr>\<rparr>;
     Some (if has_flag st1 store_load_legacy
           then set_index (m_index (m_registers st1) + 1) st1 else st1)
   }"

subsection \<open>The dispatch table\<close>

text \<open>
  An instruction family: the keys of its instructions (the \<open>unordered_map\<close>'s keys; the
  instruction stored under a key is named by the family's key and its own) and the
  family's opcode mask.
\<close>

record instruction_family =
  m_instructions :: "u8 list"
  m_opcodeMask :: u16

text \<open>
  \<open>add_instruction\<close>: a family is created, with the given mask, only if the table does
  not hold one under \<open>family_key\<close>; the instruction is then stored in the family.
\<close>

definition add_instruction ::
  "u8 \<Rightarrow> u8 \<Rightarrow> u16 \<Rightarrow> (u8 \<rightharpoonup> instruction_family) \<Rightarrow> (u8 \<rightharpoonup> instruction_family)" where
  "add_instruction family_key instruction_key opcodeMask fams =
     (let fams1 = (if fams family_key = None
                   then fams(family_key \<mapsto> \<lparr>m_instructions = [], m_opcodeMask = opcodeMask\<rparr>)
                   else fams)
      in case fams1 family_key of
           None \<Rightarrow> fams1
         | Some f \<Rightarrow> fams1(family_key \<mapsto>
             f\<lparr>m_instructions := List.insert instruction_key (m_instructions f)\<rparr>))"

text \<open>The constructor's calls of \<open>add_instruction\<close>, in order, without the bodies.\<close>

definition registrations :: "(u8 \<times> u8 \<times> u16) list" where
  "registrations =
   [(0x00, 0xe0, 0x00ff), (0x00, 0xee, 0x00ff), (0x00, 0x00, 0x0000),
    (0x10, 0x00, 0x0000), (0x20, 0x00, 0x0000), (0x30, 0x00, 0x0000),
    (0x40, 0x00, 0x0000), (0x50, 0x00, 0x0000), (0x60, 0x00, 0x0000),
    (0x70, 0x00, 0x0000),
    (0x80, 0x00, 0x000f), (0x80, 0x01, 0x000f), (0x80, 0x02, 0x000f),
    (0x80, 0x03, 0x000f), (0x80, 0x04, 0x000f), (0x80, 0x05, 0x000f),
    (0x80, 0x06, 0x000f), (0x80, 0x07, 0x000f), (0x80, 0x0e, 0x000f),
    (0x90, 0x00, 0x000f), (0xa0, 0x00, 0x0000), (0xb0, 0x00, 0x0000),
    (0xc0, 0x00, 0x0000), (0xd0, 0x00, 0x0000),
    (0xe0, 0x9e, 0x00ff), (0xe0, 0xa1, 0x00ff),
    (0xf0, 0x07, 0x00ff), (0xf0, 0x0a, 0x00ff), (0xf0, 0x15, 0x00ff),
    (0xf0, 0x18, 0x00ff), (0xf0, 0x1e, 0x00ff), (0xf0, 0x29, 0x00ff),
    (0xf0, 0x33, 0x00ff), (0xf0, 0x55, 0x00ff), (0xf0, 0x65, 0x00ff)]"

definition m_families :: "u8 \<rightharpoonup> instruction_family" where
  "m_families = fold (\<lambda>(fk, ik, mask). add_instruction fk ik mask) registrations Map.empty"

text \<open>The body registered under a family key and an instruction key.\<close>

definition instruction_body :: "u8 \<times> u8 \<Rightarrow> nat \<Rightarrow> interpreter \<Rightarrow> interpreter option" where
  "instruction_body k rnd st =
     (if k = (0x00, 0xe0) then body_00_e0 st
      else if k = (0x00, 0xee) then body_00_ee st
      else if k = (0x00, 0x00) then body_00_00 st
      else if k = (0x10, 0x00) then body_10_00 st
      else if k = (0x20, 0x00) then body_20_00 st
      else if k = (0x30, 0x00) then body_30_00 st
      else if k = (0x40, 0x00) then body_40_00 st
      else if k = (0x50, 0x00) then body_50_00 st
      else if k = (0x60, 0x00) then body_60_00 st
      else if k = (0x70, 0x00) then body_70_00 st
      else if k = (0x80, 0x00) then body_80_00 st
      else if k = (0x80, 0x01) then body_80_01 st
      else if k = (0x80, 0x02) then body_80_02 st
      else if k = (0x80, 0x03) then body_80_03 st
      else if k = (0x80, 0x04) then body_80_04 st
      else if k = (0x80, 0x05) then body_80_05 st
      else if k = (0x80, 0x06) then body_80_06 st
      else if k = (0x80, 0x07) then body_80_07 st
      else if k = (0x80, 0x0e) then body_80_0e st
      else if k = (0x90, 0x00) then body_90_00 st
      else if k = (0xa0, 0x00) then body_a0_00 st
      else if k = (0xb0, 0x00) then body_b0_00 st
      else if k = (0xc0, 0x00) then body_c0_00 rnd st
      else if k = (0xd0, 0x00) then body_d0_00 st
      else if k = (0xe0, 0x9e) then body_e0_9e st
      else if k = (0xe0, 0xa1) then body_e0_a1 st
      else if k = (0xf0, 0x07) then body_f0_07 st
      else if k = (0xf0, 0x0a) then body_f0_0a st
      else if k = (0xf0, 0x15) then body_f0_15 st
      else if k = (0xf0, 0x18) then body_f0_18 st
      else if k = (0xf0, 0x1e) then body_f0_1e st
      else if k = (0xf0, 0x29) then body_f0_29 st
      else if k = (0xf0, 0x33) then body_f0_33 st
      else if k = (0xf0, 0x55) then body_f0_55 st
      else if k = (0xf0, 0x65) then body_f0_65 st
      else None)"

subsection \<open>Fetch, decode, execute\<close>

text \<open>The fields \<open>fetch\<close> derives from the opcode.\<close>

definition decode_fields :: "u16 \<Rightarrow> decode_state" where
  "decode_fields opcode =
     \<lparr>m_opcode = opcode,
      m_x = ucast (drop_bit 8 opcode AND 0x000f),
      m_y = ucast (drop_bit 4 opcode AND 0x000f),
      m_n = ucast (opcode AND 0x000f),
      m_nn = ucast (opcode AND 0x00ff),
      m_nnn = opcode AND 0x0fff\<rparr>"

definition fetch :: "interpreter \<Rightarrow> interpreter option" where
  "fetch st = do {
     let pc = m_pc (m_registers st);
     hi \<leftarrow> rd (m_data (m_memory st)) (unat pc);
     lo \<leftarrow> rd (m_data (m_memory st)) (unat pc + 1);
     let opcode = (push_bit 8 (ucast hi) OR ucast lo :: u16);
     Some (st\<lparr>m_previousState := m_state st,
              m_state := decode_fields opcode,
              m_registers := (m_registers st)\<lparr>m_pc := pc + 2\<rparr>\<rparr>)
   }"

text \<open>
  \<open>decode\<close>: the family is looked up by the opcode's first nibble, the instruction by
  the opcode under the family's mask, converted to the map's 8-bit key type. A miss in
  either map is \<open>unimplemented\<close>.
\<close>

definition decode :: "interpreter \<Rightarrow> interpreter option" where
  "decode st =
     (let opcode = m_opcode (m_state st);
          family_key = (ucast (drop_bit 8 (opcode AND 0xf000)) :: u8)
      in case m_families family_key of
           None \<Rightarrow> unimplemented opcode
         | Some family \<Rightarrow>
             (let key = (ucast (opcode AND m_opcodeMask family) :: u8)
              in if key \<in> set (m_instructions family)
                 then Some (st\<lparr>m_currentInstruction := Some (family_key, key)\<rparr>)
                 else unimplemented opcode))"

text \<open>\<open>execute\<close> asserts that there is a current instruction and runs its body.\<close>

definition execute :: "nat \<Rightarrow> interpreter \<Rightarrow> interpreter option" where
  "execute rnd st =
     (case m_currentInstruction st of
        None \<Rightarrow> None
      | Some k \<Rightarrow> instruction_body k rnd st)"

subsection \<open>One step\<close>

text \<open>
  The timer update at the end of \<open>advance\<close>. \<open>elapsed_ms\<close> is the whole number of
  milliseconds the clock reports since \<open>m_frame_end\<close>; as an integer it is at least
  \<open>16.66f\<close> exactly when it is at least 17. \<open>now\<close> is the clock's second reading.
\<close>

definition update_timers :: "int \<Rightarrow> int \<Rightarrow> interpreter \<Rightarrow> interpreter" where
  "update_timers elapsed_ms now st =
     (if elapsed_ms \<ge> 17 then
        (let t = m_timers st;
             t1 = (if m_delay t > 0 then t\<lparr>m_delay := m_delay t - 1\<rparr> else t);
             t2 = (if m_sound t1 > 0 then t1\<lparr>m_sound := m_sound t1 - 1\<rparr> else t1)
         in st\<lparr>m_timers := t2, m_frame_end := now\<rparr>)
      else st)"

text \<open>
  \<open>advance\<close>, in the two parts its comments name: the key update with the fetch,
  decode, execute cycle (\<open>cycle\<close>), then the timer update. Its inputs from outside the
  interpreter are the key buffer, the value \<open>std::rand()\<close> returns if the instruction
  calls it, and the two clock readings.
\<close>

definition cycle :: "u8 list \<Rightarrow> nat \<Rightarrow> interpreter \<Rightarrow> interpreter option" where
  "cycle key_buffer rnd st = do {
     prev \<leftarrow> memcpy (m_prev_key (m_input st)) 0 (m_key (m_input st)) 0 c_maxKeys;
     keys \<leftarrow> memcpy (m_key (m_input st)) 0 key_buffer 0 c_maxKeys;
     let st1 = st\<lparr>m_input := \<lparr>m_key = keys, m_prev_key = prev\<rparr>\<rparr>;
     st2 \<leftarrow> (if \<not> m_isWaitingForInput st1 then do { s \<leftarrow> fetch st1; decode s } else Some st1);
     execute rnd st2
   }"

definition advance :: "u8 list \<Rightarrow> nat \<Rightarrow> int \<Rightarrow> int \<Rightarrow> interpreter \<Rightarrow> interpreter option" where
  "advance key_buffer rnd elapsed_ms now st = do {
     st3 \<leftarrow> cycle key_buffer rnd st;
     Some (update_timers elapsed_ms now st3)
   }"

subsection \<open>The constructor\<close>

text \<open>
  The constructor leaves \<open>m_state\<close> and \<open>m_previousState\<close> uninitialised: their
  contents are the parameter \<open>uninit\<close>.
\<close>

definition interpreter_new :: "u8 \<Rightarrow> decode_state \<Rightarrow> interpreter" where
  "interpreter_new behaviour_flags uninit =
     \<lparr>m_memory = \<lparr>m_data = c_fontset @ replicate (c_maxMemory - length c_fontset) 0,
                  m_stack = replicate c_maxStack 0\<rparr>,
      m_display = replicate c_displaySize 0,
      m_registers = \<lparr>m_index = 0, m_sp = 0, m_pc = c_romStartAddress, m_v = replicate 16 0\<rparr>,
      m_timers = \<lparr>m_delay = 0, m_sound = 0\<rparr>,
      m_input = \<lparr>m_key = replicate c_maxKeys 0, m_prev_key = replicate c_maxKeys 0\<rparr>,
      m_state = uninit,
      m_previousState = uninit,
      m_frame_end = 0,
      m_isWaitingForInput = False,
      m_flags = behaviour_flags,
      m_currentInstruction = None\<rparr>"

text \<open>The arrays have their declared sizes.\<close>

definition sized :: "interpreter \<Rightarrow> bool" where
  "sized st =
     (length (m_data (m_memory st)) = c_maxMemory \<and>
      length (m_stack (m_memory st)) = c_maxStack \<and>
      length (m_display st) = c_displaySize \<and>
      length (m_v (m_registers st)) = 16 \<and>
      length (m_key (m_input st)) = c_maxKeys \<and>
      length (m_prev_key (m_input st)) = c_maxKeys)"

text \<open>
  The states in which \<open>execute\<close> runs: the arrays are sized, the decode state is the one
  \<open>fetch\<close> derives from its opcode, and the current instruction is the one \<open>decode\<close>
  selects for it.
\<close>

definition ready :: "interpreter \<Rightarrow> bool" where
  "ready st =
     (sized st \<and> m_state st = decode_fields (m_opcode (m_state st)) \<and> decode st = Some st)"

text \<open>Shorthands for the statements: the register file and the decoded register indices.\<close>

abbreviation regs :: "interpreter \<Rightarrow> u8 list" where
  "regs st \<equiv> m_v (m_registers st)"

abbreviation x_of :: "interpreter \<Rightarrow> nat" where
  "x_of st \<equiv> unat (m_x (m_state st))"

abbreviation y_of :: "interpreter \<Rightarrow> nat" where
  "y_of st \<equiv> unat (m_y (m_state st))"

abbreviation with_regs :: "u8 list \<Rightarrow> interpreter \<Rightarrow> interpreter" where
  "with_regs vs st \<equiv> st\<lparr>m_registers := (m_registers st)\<lparr>m_v := vs\<rparr>\<rparr>"

text \<open>
  A concrete state for the examples: an interpreter constructed with the flags \<open>fl\<close>
  that has fetched the opcode \<open>op\<close> and decoded it to the instruction \<open>k\<close>, with the
  register file \<open>vs\<close> and the index register \<open>idx\<close>.
\<close>

definition poised :: "u8 \<Rightarrow> u16 \<Rightarrow> u8 \<times> u8 \<Rightarrow> u8 list \<Rightarrow> u16 \<Rightarrow> interpreter" where
  "poised fl op k vs idx =
     (interpreter_new fl (decode_fields op))
       \<lparr>m_registers := \<lparr>m_index = idx, m_sp = 0, m_pc = c_romStartAddress + 2, m_v = vs\<rparr>,
        m_currentInstruction := Some k\<rparr>"

text \<open>
  For the statements about the arithmetic and shift instructions: the value each of them
  passes to \<open>update_flag\<close>, by the opcode's last nibble (4: the sum of the two registers
  exceeds 255; 5: x - y is positive; 7: y - x is positive; 6: the lowest bit of the
  shifted value; e: its highest bit). The shifted value is register y under
  \<open>shift_legacy\<close>, register x otherwise.
\<close>

definition flag_value :: "interpreter \<Rightarrow> u8" where
  "flag_value st =
     (let a = regs st ! x_of st; b = regs st ! y_of st;
          src = (if has_flag st shift_legacy then b else a);
          k = m_opcode (m_state st) AND 0x000f
      in if k = 4 then of_bool8 (255 < unat a + unat b)
         else if k = 5 then of_bool8 (0 < uint a - uint b)
         else if k = 7 then of_bool8 (0 < uint b - uint a)
         else if k = 6 then of_bool8 (bit src 0)
         else of_bool8 (bit src 7))"

text \<open>
  The bitwise operation an opcode of the family 8 selects by its last nibble
  (1: OR, 2: AND, 3: XOR).
\<close>

definition logical_op :: "u16 \<Rightarrow> u8 \<Rightarrow> u8 \<Rightarrow> u8" where
  "logical_op k a b = (if k = 1 then a OR b else if k = 2 then a AND b else a XOR b)"

text \<open>
  The host loads a program as the README shows,
  \<open>memcpy(interpreter.get_memory()->m_rom, rom, romSizeInBytes)\<close>, into a newly
  constructed interpreter.
\<close>

definition rom_loaded :: "u8 \<Rightarrow> u8 list \<Rightarrow> interpreter" where
  "rom_loaded fl rom =
     (let st = interpreter_new fl (decode_fields 0);
          mem = m_data (m_memory st);
          a = unat c_romStartAddress
      in set_data (take a mem @ rom @ drop (a + length rom) mem) st)"

text \<open>
  For the statements about the draw instruction. A sprite pixel is a pair (y, x) of a
  sprite row and a column. \<open>coord\<close> is the pair (\<open>coordx\<close>, \<open>coordy\<close>) the instruction
  computes from registers x and y.
\<close>

definition coord :: "interpreter \<Rightarrow> nat \<times> nat" where
  "coord st =
     (unat (regs st ! x_of st) mod c_displayWidth, unat (regs st ! y_of st) mod c_displayHeight)"

text \<open>The index of the display cell a pixel lands on when its coordinates are wrapped.\<close>

definition target :: "interpreter \<Rightarrow> nat \<times> nat \<Rightarrow> nat" where
  "target st p =
     ((snd (coord st) + fst p) mod c_displayHeight) * c_displayWidth
       + (fst (coord st) + snd p) mod c_displayWidth"

text \<open>The sprite's bit for a pixel: bit 7 - x of the byte at the index register plus y.\<close>

definition sprite_bit :: "interpreter \<Rightarrow> nat \<times> nat \<Rightarrow> bool" where
  "sprite_bit st p =
     bit (m_data (m_memory st) ! (unat (m_index (m_registers st)) + fst p)) (7 - snd p)"

text \<open>
  The pixels the two loops pass over with \<open>continue\<close>: under \<open>draw_legacy\<close>, those whose
  row coordinate is greater than the display height or whose column coordinate is
  greater than the display width.
\<close>

definition skipped :: "interpreter \<Rightarrow> nat \<times> nat \<Rightarrow> bool" where
  "skipped st p =
     (has_flag st draw_legacy \<and>
      (c_displayHeight < snd (coord st) + fst p \<or> c_displayWidth < fst (coord st) + snd p))"

text \<open>The pixels the loops draw, in the loops' order.\<close>

definition drawn :: "interpreter \<Rightarrow> (nat \<times> nat) list" where
  "drawn st =
     filter (\<lambda>p. \<not> skipped st p) (List.product [0..<unat (m_n (m_state st))] [0..<8])"

text \<open>
  What the loop body does to the loop variables for one pixel that is not skipped, \<open>c\<close>
  giving the pixel's cell and \<open>b\<close> its sprite bit; and the display that results from
  drawing a list of pixels, cell by cell.
\<close>

definition plot :: "('p \<Rightarrow> nat) \<Rightarrow> ('p \<Rightarrow> bool) \<Rightarrow> 'p \<Rightarrow> u8 list \<times> u8 \<Rightarrow> u8 list \<times> u8" where
  "plot c b p acc =
     (let prev = fst acc ! c p; new = prev XOR of_bool8 (b p)
      in ((fst acc)[c p := new], snd acc OR of_bool8 (prev \<noteq> 0 \<and> new = 0)))"

definition blit_display :: "('p \<Rightarrow> nat) \<Rightarrow> ('p \<Rightarrow> bool) \<Rightarrow> 'p list \<Rightarrow> u8 list \<Rightarrow> u8 list" where
  "blit_display c b ps d =
     map (\<lambda>k. d ! k XOR of_bool8 (\<exists>p \<in> set ps. c p = k \<and> b p)) [0..<length d]"

section \<open>Machine arithmetic\<close>

lemma and15: "(w :: 'a::len word) AND 15 = take_bit 4 w"
  by (simp add: take_bit_eq_mask mask_eq_exp_minus_1)

lemma and255: "(w :: 'a::len word) AND 255 = take_bit 8 w"
  by (simp add: take_bit_eq_mask mask_eq_exp_minus_1)

lemma nibble_lt: "unat (ucast ((w :: u16) AND 15) :: u8) < 16"
  using take_bit_nat_less_exp [of 4 "unat w"]
  by (simp add: and15 unsigned_ucast_eq unsigned_take_bit_eq)

lemma ucast_low_byte: "(ucast ((w :: u16) AND 255) :: u8) = ucast w"
  by (rule bit_word_eqI) (simp add: and255 bit_simps)

lemma sub16: "(ucast (a :: u8) - ucast (b :: u8) :: u16) = word_of_int (uint a - uint b)"
  by (simp only: ucast_eq wi_hom_sub)

lemma down16: "(ucast (word_of_int k :: u16) :: u8) = word_of_int k"
  by (simp add: ucast_down_wi is_down)

lemma sint16: "- 32768 \<le> k \<Longrightarrow> k < 32768 \<Longrightarrow> sint (word_of_int k :: u16) = k"
  by (simp add: sint_sbintrunc' signed_take_bit_int_eq_self_iff)

lemma u8_bounds: "0 \<le> uint (a :: u8)" "uint (a :: u8) < 256"
  using uint_bounded [of a] by simp_all

lemma u8_lt: "unat (a :: u8) < 256"
  using unsigned_less [of a] by simp

lemma sub_result:
  "(ucast ((ucast (a :: u8) - ucast (b :: u8) :: u16) AND 255) :: u8) = word_of_int (uint a - uint b)"
  by (simp only: ucast_low_byte sub16 down16)

lemma sub_flag:
  "(0 < sint (ucast (a :: u8) - ucast (b :: u8) :: u16)) = (0 < uint a - uint b)"
proof -
  have "sint (word_of_int (uint a - uint b) :: u16) = uint a - uint b"
    using u8_bounds [of a] u8_bounds [of b] by (intro sint16) linarith+
  then show ?thesis by (simp only: sub16)
qed

lemma add_result:
  "(ucast ((ucast (a :: u8) + ucast (b :: u8) :: u16) AND 255) :: u8) = of_nat ((unat a + unat b) mod 256)"
  using u8_lt [of a] u8_lt [of b]
  by (simp add: ucast_low_byte word_unat_eq_iff unat_word_ariths unat_of_nat unsigned_ucast_eq
      take_bit_eq_mod)

lemma add_flag:
  "((ucast (a :: u8) + ucast (b :: u8) :: u16) > 255) = (unat a + unat b > 255)"
  using u8_lt [of a] u8_lt [of b]
  by (simp add: word_less_nat_alt unat_word_ariths unsigned_ucast_eq take_bit_eq_mod)

lemma add8: "(a :: u8) + b = of_nat ((unat a + unat b) mod 256)"
  by (simp add: word_unat_eq_iff unat_word_ariths unat_of_nat)

lemma lsb_flag: "(w :: u8) AND 1 = of_bool8 (bit w 0)"
  by (simp add: of_bool8_def and_one_eq bit_0 mod_2_eq_odd)

lemma msb_flag: "drop_bit 7 (w :: u8) AND 1 = of_bool8 (bit w 7)"
  by (simp add: of_bool8_def and_one_eq bit_iff_odd_drop_bit mod_2_eq_odd)

lemma mask_f00f:
  fixes op :: u16
  assumes "op AND 0xf00f = c"
  shows "op AND 0xf000 = c AND 0xf000" and "op AND 0x000f = c AND 0x000f"
proof -
  have "op AND 0xf000 = (op AND 0xf00f) AND 0xf000" by (simp add: word_bw_assocs)
  then show "op AND 0xf000 = c AND 0xf000" using assms by simp
  have "op AND 0x000f = (op AND 0xf00f) AND 0x000f" by (simp add: word_bw_assocs)
  then show "op AND 0x000f = c AND 0x000f" using assms by simp
qed

lemma mask_f0ff:
  fixes op :: u16
  assumes "op AND 0xf0ff = c"
  shows "op AND 0xf000 = c AND 0xf000" and "op AND 0x00ff = c AND 0x00ff"
proof -
  have "op AND 0xf000 = (op AND 0xf0ff) AND 0xf000" by (simp add: word_bw_assocs)
  then show "op AND 0xf000 = c AND 0xf000" using assms by simp
  have "op AND 0x00ff = (op AND 0xf0ff) AND 0x00ff" by (simp add: word_bw_assocs)
  then show "op AND 0x00ff = c AND 0x00ff" using assms by simp
qed

section \<open>Dispatch\<close>

lemma families_60: "m_families 0x60 = Some \<lparr>m_instructions = [0], m_opcodeMask = 0\<rparr>"
  by (simp add: m_families_def registrations_def add_instruction_def)

lemma families_70: "m_families 0x70 = Some \<lparr>m_instructions = [0], m_opcodeMask = 0\<rparr>"
  by (simp add: m_families_def registrations_def add_instruction_def)

lemma families_80: "m_families 0x80 =
    Some \<lparr>m_instructions = [0x0e, 7, 6, 5, 4, 3, 2, 1, 0], m_opcodeMask = 0x000f\<rparr>"
  by (simp add: m_families_def registrations_def add_instruction_def)

lemma families_d0: "m_families 0xd0 = Some \<lparr>m_instructions = [0], m_opcodeMask = 0\<rparr>"
  by (simp add: m_families_def registrations_def add_instruction_def)

lemma families_f0: "m_families 0xf0 =
    Some \<lparr>m_instructions = [0x65, 0x55, 0x33, 0x29, 0x1e, 0x18, 0x15, 0x0a, 0x07],
          m_opcodeMask = 0x00ff\<rparr>"
  by (simp add: m_families_def registrations_def add_instruction_def)

lemma decode_current:
  assumes "decode st = Some st'"
    and "m_families (ucast (drop_bit 8 (m_opcode (m_state st) AND 0xf000))) = Some fam"
  shows "m_currentInstruction st' =
           Some (ucast (drop_bit 8 (m_opcode (m_state st) AND 0xf000)),
                 ucast (m_opcode (m_state st) AND m_opcodeMask fam))"
  using assms by (auto simp: decode_def Let_def unimplemented_def split: if_splits)

lemma ready_sized: "ready st \<Longrightarrow> sized st"
  by (simp add: ready_def)

lemma ready_xy:
  assumes "ready st"
  shows "x_of st < 16" and "y_of st < 16" and "unat (m_n (m_state st)) < 16"
proof -
  from assms have d: "m_state st = decode_fields (m_opcode (m_state st))"
    by (simp add: ready_def)
  show "x_of st < 16" by (subst d) (simp add: decode_fields_def nibble_lt)
  show "y_of st < 16" by (subst d) (simp add: decode_fields_def nibble_lt)
  show "unat (m_n (m_state st)) < 16" by (subst d) (simp add: decode_fields_def nibble_lt)
qed

lemma current_70:
  assumes "ready st" and "m_opcode (m_state st) AND 0xf000 = 0x7000"
  shows "m_currentInstruction st = Some (0x70, 0x00)"
proof -
  from assms(1) have d: "decode st = Some st" by (simp add: ready_def)
  show ?thesis using decode_current [OF d] assms(2) by (simp add: families_70)
qed

lemma current_80:
  assumes "ready st" and "m_opcode (m_state st) AND 0xf00f = c"
    and "c AND 0xf000 = 0x8000"
  shows "m_currentInstruction st = Some (0x80, ucast (c AND 0x000f))"
proof -
  from assms(1) have d: "decode st = Some st" by (simp add: ready_def)
  show ?thesis
    using decode_current [OF d] mask_f00f [OF assms(2)] assms(3) by (simp add: families_80)
qed

lemma current_d0:
  assumes "ready st" and "m_opcode (m_state st) AND 0xf000 = 0xd000"
  shows "m_currentInstruction st = Some (0xd0, 0x00)"
proof -
  from assms(1) have d: "decode st = Some st" by (simp add: ready_def)
  show ?thesis using decode_current [OF d] assms(2) by (simp add: families_d0)
qed

lemma current_f0:
  assumes "ready st" and "m_opcode (m_state st) AND 0xf0ff = c"
    and "c AND 0xf000 = 0xf000"
  shows "m_currentInstruction st = Some (0xf0, ucast (c AND 0x00ff))"
proof -
  from assms(1) have d: "decode st = Some st" by (simp add: ready_def)
  show ?thesis
    using decode_current [OF d] mask_f0ff [OF assms(2)] assms(3) by (simp add: families_f0)
qed

lemma execute_current:
  "m_currentInstruction st = Some k \<Longrightarrow> execute rnd st = instruction_body k rnd st"
  by (simp add: execute_def)

lemma bodies_80:
  "instruction_body (0x80, 0x01) rnd st = body_80_01 st"
  "instruction_body (0x80, 0x02) rnd st = body_80_02 st"
  "instruction_body (0x80, 0x03) rnd st = body_80_03 st"
  "instruction_body (0x80, 0x04) rnd st = body_80_04 st"
  "instruction_body (0x80, 0x05) rnd st = body_80_05 st"
  "instruction_body (0x80, 0x06) rnd st = body_80_06 st"
  "instruction_body (0x80, 0x07) rnd st = body_80_07 st"
  "instruction_body (0x80, 0x0e) rnd st = body_80_0e st"
  by (simp_all add: instruction_body_def)

lemma bodies_other:
  "instruction_body (0x70, 0x00) rnd st = body_70_00 st"
  "instruction_body (0xd0, 0x00) rnd st = body_d0_00 st"
  "instruction_body (0xf0, 0x29) rnd st = body_f0_29 st"
  "instruction_body (0xf0, 0x55) rnd st = body_f0_55 st"
  "instruction_body (0xf0, 0x65) rnd st = body_f0_65 st"
  by (simp_all add: instruction_body_def)

text \<open>\<open>fetch\<close> followed by \<open>decode\<close> leaves a state in which \<open>execute\<close> is ready to run.\<close>

lemma fetch_decode_ready:
  assumes "sized st" and "fetch st = Some s1" and "decode s1 = Some s2"
  shows "ready s2"
proof -
  from assms(2) obtain opc where s1: "m_state s1 = decode_fields opc" and z1: "sized s1"
    using assms(1)
    by (auto simp: fetch_def rd_def Let_def sized_def split: if_splits)
  from assms(3) obtain k where s2: "s2 = s1\<lparr>m_currentInstruction := Some k\<rparr>"
    by (auto simp: decode_def Let_def unimplemented_def split: option.splits if_splits)
  have "m_state s2 = decode_fields (m_opcode (m_state s2))"
    using s1 s2 by (simp add: decode_fields_def)
  moreover have "sized s2" using z1 s2 by (simp add: sized_def)
  moreover have "decode s2 = Some s2"
    using assms(3) s2
    by (auto simp: decode_def Let_def unimplemented_def split: option.splits if_splits)
  ultimately show ?thesis by (simp add: ready_def)
qed

section \<open>Register instructions\<close>

lemma get_v_sized: "sized st \<Longrightarrow> unat i < 16 \<Longrightarrow> get_v st i = Some (regs st ! unat i)"
  by (simp add: get_v_def rd_def sized_def)

lemma set_v_sized:
  "sized st \<Longrightarrow> unat i < 16 \<Longrightarrow> set_v i v st = Some (with_regs ((regs st)[unat i := v]) st)"
  by (simp add: set_v_def wr_def sized_def)

lemma exec_70_00:
  assumes "sized st" "x_of st < 16"
  shows "body_70_00 st =
           Some (with_regs ((regs st)[x_of st := regs st ! x_of st + m_nn (m_state st)]) st)"
  using assms by (simp add: body_70_00_def get_v_sized set_v_sized)

lemma exec_logical:
  assumes "sized st" "x_of st < 16" "y_of st < 16"
  shows "logical f st = Some (if has_flag st logical_legacy
           then with_regs ((regs st)[x_of st := f (regs st ! x_of st) (regs st ! y_of st), 15 := 0]) st
           else with_regs ((regs st)[x_of st := f (regs st ! x_of st) (regs st ! y_of st)]) st)"
  using assms by (simp add: logical_def get_v_sized set_v_sized update_flag_def has_flag_def)

lemma exec_80_04:
  assumes "sized st" "x_of st < 16" "y_of st < 16"
  shows "body_80_04 st = Some (with_regs ((regs st)
           [x_of st := of_nat ((unat (regs st ! x_of st) + unat (regs st ! y_of st)) mod 256),
            15 := of_bool8 (unat (regs st ! x_of st) + unat (regs st ! y_of st) > 255)]) st)"
  using assms
  by (simp add: body_80_04_def get_v_sized set_v_sized update_flag_def add_result add_flag Let_def)

lemma exec_80_05:
  assumes "sized st" "x_of st < 16" "y_of st < 16"
  shows "body_80_05 st = Some (with_regs ((regs st)
           [x_of st := word_of_int (uint (regs st ! x_of st) - uint (regs st ! y_of st)),
            15 := of_bool8 (0 < uint (regs st ! x_of st) - uint (regs st ! y_of st))]) st)"
  using assms
  by (simp add: body_80_05_def subtract_def get_v_sized set_v_sized update_flag_def sub_result
      sub_flag Let_def)

lemma exec_80_07:
  assumes "sized st" "x_of st < 16" "y_of st < 16"
  shows "body_80_07 st = Some (with_regs ((regs st)
           [x_of st := word_of_int (uint (regs st ! y_of st) - uint (regs st ! x_of st)),
            15 := of_bool8 (0 < uint (regs st ! y_of st) - uint (regs st ! x_of st))]) st)"
  using assms
  by (simp add: body_80_07_def subtract_def get_v_sized set_v_sized update_flag_def sub_result
      sub_flag Let_def)

lemma exec_80_06:
  assumes "sized st" "x_of st < 16" "y_of st < 16"
  shows "body_80_06 st = Some (with_regs ((regs st)
           [x_of st := drop_bit 1 (if has_flag st shift_legacy then regs st ! y_of st
                                   else regs st ! x_of st),
            15 := of_bool8 (bit (if has_flag st shift_legacy then regs st ! y_of st
                                 else regs st ! x_of st) 0)]) st)"
  using assms
  by (simp add: body_80_06_def get_v_sized set_v_sized update_flag_def lsb_flag get_v_def rd_def
      sized_def)

lemma exec_80_0e:
  assumes "sized st" "x_of st < 16" "y_of st < 16"
  shows "body_80_0e st = Some (with_regs ((regs st)
           [x_of st := push_bit 1 (if has_flag st shift_legacy then regs st ! y_of st
                                   else regs st ! x_of st),
            15 := of_bool8 (bit (if has_flag st shift_legacy then regs st ! y_of st
                                 else regs st ! x_of st) 7)]) st)"
  using assms
  by (simp add: body_80_0e_def get_v_sized set_v_sized update_flag_def msb_flag get_v_def rd_def
      sized_def)

section \<open>Presets and example states\<close>

lemma preset_flags:
  "m_flags st = chip8_original \<Longrightarrow>
     has_flag st shift_legacy \<and> has_flag st store_load_legacy \<and> has_flag st logical_legacy
     \<and> has_flag st draw_legacy"
  "m_flags st = chip8_schip \<Longrightarrow>
     \<not> has_flag st shift_legacy \<and> \<not> has_flag st store_load_legacy \<and> \<not> has_flag st logical_legacy
     \<and> has_flag st draw_legacy"
  "m_flags st = chip8_xochip \<Longrightarrow>
     has_flag st shift_legacy \<and> has_flag st store_load_legacy \<and> \<not> has_flag st logical_legacy
     \<and> \<not> has_flag st draw_legacy"
  by (simp_all add: has_flag_def chip8_original_def chip8_schip_def chip8_xochip_def all_legacy_def
      shift_legacy_def store_load_legacy_def jump_offset_legacy_def logical_legacy_def
      disp_sync_legacy_def draw_legacy_def)

lemmas poised_defs = poised_def interpreter_new_def decode_fields_def c_fontset_def
  c_maxMemory_def c_maxStack_def c_displaySize_def c_displayWidth_def c_displayHeight_def
  c_maxKeys_def c_romStartAddress_def c_fontStartAddress_def

lemmas ready_defs = ready_def sized_def decode_def Let_def

section \<open>Arithmetic, shift and logical instructions\<close>

text \<open>
  C4, as amended. Add with carry (0x8XY4) writes the sum of the two registers modulo 256
  into register x and then sets the flag register to 1 if the sum exceeds 255 and to 0
  otherwise. Add immediate (0x7XNN) writes the sum of register x and NN modulo 256 into
  register x and writes no other register: it computes no carry, and the flag register
  keeps its value unless x = 15, where the flag register is the destination and receives
  the sum modulo 256. (The examples: 0x8014 on 200 and 100 gives 44 and the flag 1; 0x7001
  on 255 gives 0 and leaves the flag 0; 0x7F05 on the flag register holding 1 gives 6.)
\<close>

theorem add_carry_and_add_immediate:
  assumes "ready st"
  shows "(m_opcode (m_state st) AND 0xf00f = 0x8004 \<longrightarrow>
            (let s = unat (regs st ! x_of st) + unat (regs st ! y_of st)
             in execute rnd st =
                  Some (with_regs ((regs st)[x_of st := of_nat (s mod 256), 15 := of_bool8 (255 < s)]) st)))
       \<and> (m_opcode (m_state st) AND 0xf000 = 0x7000 \<longrightarrow>
            (let s = unat (regs st ! x_of st) + unat (m_nn (m_state st))
             in execute rnd st = Some (with_regs ((regs st)[x_of st := of_nat (s mod 256)]) st)))"
proof -
  note xy = ready_sized [OF assms] ready_xy(1,2) [OF assms]
  have "execute rnd st = body_80_04 st" if "m_opcode (m_state st) AND 0xf00f = 0x8004"
    using current_80 [OF assms that] by (simp add: execute_current bodies_80)
  moreover have "execute rnd st = body_70_00 st" if "m_opcode (m_state st) AND 0xf000 = 0x7000"
    using current_70 [OF assms that] by (simp add: execute_current bodies_other)
  ultimately show ?thesis
    by (simp add: exec_80_04 [OF xy] exec_70_00 [OF xy(1,2)] Let_def add8)
qed

theorem add_carry_and_add_immediate_witness:
  "ready (poised chip8_original 0x8014 (0x80, 0x04) [200, 100, 0, 0, 0, 0, 0, 0, 0, 0, 0, 0, 0, 0, 0, 0] 0)
   \<and> execute 0 (poised chip8_original 0x8014 (0x80, 0x04) [200, 100, 0, 0, 0, 0, 0, 0, 0, 0, 0, 0, 0, 0, 0, 0] 0)
       = Some (poised chip8_original 0x8014 (0x80, 0x04) [44, 100, 0, 0, 0, 0, 0, 0, 0, 0, 0, 0, 0, 0, 0, 1] 0)
   \<and> ready (poised chip8_original 0x7001 (0x70, 0x00) [255, 0, 0, 0, 0, 0, 0, 0, 0, 0, 0, 0, 0, 0, 0, 0] 0)
   \<and> execute 0 (poised chip8_original 0x7001 (0x70, 0x00) [255, 0, 0, 0, 0, 0, 0, 0, 0, 0, 0, 0, 0, 0, 0, 0] 0)
       = Some (poised chip8_original 0x7001 (0x70, 0x00) [0, 0, 0, 0, 0, 0, 0, 0, 0, 0, 0, 0, 0, 0, 0, 0] 0)
   \<and> ready (poised chip8_original 0x7f05 (0x70, 0x00) [0, 0, 0, 0, 0, 0, 0, 0, 0, 0, 0, 0, 0, 0, 0, 1] 0)
   \<and> execute 0 (poised chip8_original 0x7f05 (0x70, 0x00) [0, 0, 0, 0, 0, 0, 0, 0, 0, 0, 0, 0, 0, 0, 0, 1] 0)
       = Some (poised chip8_original 0x7f05 (0x70, 0x00) [0, 0, 0, 0, 0, 0, 0, 0, 0, 0, 0, 0, 0, 0, 0, 6] 0)"
proof -
  have r1: "ready (poised chip8_original 0x8014 (0x80, 0x04) [200, 100, 0, 0, 0, 0, 0, 0, 0, 0, 0, 0, 0, 0, 0, 0] 0)"
    by (simp add: ready_defs poised_defs families_80)
  have r2: "ready (poised chip8_original 0x7001 (0x70, 0x00) [255, 0, 0, 0, 0, 0, 0, 0, 0, 0, 0, 0, 0, 0, 0, 0] 0)"
    by (simp add: ready_defs poised_defs families_70)
  have r3: "ready (poised chip8_original 0x7f05 (0x70, 0x00) [0, 0, 0, 0, 0, 0, 0, 0, 0, 0, 0, 0, 0, 0, 0, 1] 0)"
    by (simp add: ready_defs poised_defs families_70)
  show ?thesis
    using r1 r2 r3 add_carry_and_add_immediate [OF r1, of 0] add_carry_and_add_immediate [OF r2, of 0]
      add_carry_and_add_immediate [OF r3, of 0]
    by (simp add: poised_defs of_bool8_def)
qed

text \<open>
  C4 as stated fails for add immediate: with 255 in register 0, 0x7001 computes the sum
  256, which exceeds 255, and the flag register stays 0.
\<close>

theorem add_immediate_keeps_flag:
  "ready (poised chip8_original 0x7001 (0x70, 0x00) [255, 0, 0, 0, 0, 0, 0, 0, 0, 0, 0, 0, 0, 0, 0, 0] 0)
   \<and> m_opcode (m_state (poised chip8_original 0x7001 (0x70, 0x00) [255, 0, 0, 0, 0, 0, 0, 0, 0, 0, 0, 0, 0, 0, 0, 0] 0)) AND 0xf000 = 0x7000
   \<and> 255 < unat (255 :: u8) + unat (m_nn (m_state (poised chip8_original 0x7001 (0x70, 0x00) [255, 0, 0, 0, 0, 0, 0, 0, 0, 0, 0, 0, 0, 0, 0, 0] 0)))
   \<and> map_option (\<lambda>s. regs s ! 15)
        (execute 0 (poised chip8_original 0x7001 (0x70, 0x00) [255, 0, 0, 0, 0, 0, 0, 0, 0, 0, 0, 0, 0, 0, 0, 0] 0))
       = Some 0"
  by (simp add: ready_defs poised_defs families_70 execute_def bodies_other body_70_00_def
      get_v_def set_v_def rd_def wr_def)

text \<open>
  C5. Subtract (0x8XY5, d = x - y) and subtract reverse (0x8XY7, d = y - x), on any two
  register values: the 8-bit truncation of the difference d of the two values (taken as a
  mathematical integer) is written into register x, and then the flag register is set to
  1 if d is strictly positive and to 0 otherwise, so to 0 when d is zero. The two writes
  happen in this order, which decides the register file also when x is 15.
\<close>

theorem subtract_result_and_flag:
  assumes "ready st"
  shows "(m_opcode (m_state st) AND 0xf00f = 0x8005 \<longrightarrow>
            (let d = uint (regs st ! x_of st) - uint (regs st ! y_of st)
             in execute rnd st =
                  Some (with_regs ((regs st)[x_of st := word_of_int d, 15 := of_bool8 (0 < d)]) st)))
       \<and> (m_opcode (m_state st) AND 0xf00f = 0x8007 \<longrightarrow>
            (let d = uint (regs st ! y_of st) - uint (regs st ! x_of st)
             in execute rnd st =
                  Some (with_regs ((regs st)[x_of st := word_of_int d, 15 := of_bool8 (0 < d)]) st)))"
proof -
  note xy = ready_sized [OF assms] ready_xy(1,2) [OF assms]
  have "execute rnd st = body_80_05 st" if "m_opcode (m_state st) AND 0xf00f = 0x8005"
    using current_80 [OF assms that] by (simp add: execute_current bodies_80)
  moreover have "execute rnd st = body_80_07 st" if "m_opcode (m_state st) AND 0xf00f = 0x8007"
    using current_80 [OF assms that] by (simp add: execute_current bodies_80)
  ultimately show ?thesis
    by (simp add: exec_80_05 [OF xy] exec_80_07 [OF xy] Let_def)
qed

theorem subtract_result_and_flag_witness:
  "ready (poised chip8_schip 0x8015 (0x80, 0x05) [5, 7, 0, 0, 0, 0, 0, 0, 0, 0, 0, 0, 0, 0, 0, 9] 0)
   \<and> execute 0 (poised chip8_schip 0x8015 (0x80, 0x05) [5, 7, 0, 0, 0, 0, 0, 0, 0, 0, 0, 0, 0, 0, 0, 9] 0)
       = Some (poised chip8_schip 0x8015 (0x80, 0x05) [254, 7, 0, 0, 0, 0, 0, 0, 0, 0, 0, 0, 0, 0, 0, 0] 0)
   \<and> ready (poised chip8_schip 0x8107 (0x80, 0x07) [5, 7, 0, 0, 0, 0, 0, 0, 0, 0, 0, 0, 0, 0, 0, 9] 0)
   \<and> execute 0 (poised chip8_schip 0x8107 (0x80, 0x07) [5, 7, 0, 0, 0, 0, 0, 0, 0, 0, 0, 0, 0, 0, 0, 9] 0)
       = Some (poised chip8_schip 0x8107 (0x80, 0x07) [5, 254, 0, 0, 0, 0, 0, 0, 0, 0, 0, 0, 0, 0, 0, 0] 0)"
proof -
  have r1: "ready (poised chip8_schip 0x8015 (0x80, 0x05) [5, 7, 0, 0, 0, 0, 0, 0, 0, 0, 0, 0, 0, 0, 0, 9] 0)"
    by (simp add: ready_defs poised_defs families_80)
  have r2: "ready (poised chip8_schip 0x8107 (0x80, 0x07) [5, 7, 0, 0, 0, 0, 0, 0, 0, 0, 0, 0, 0, 0, 0, 9] 0)"
    by (simp add: ready_defs poised_defs families_80)
  show ?thesis
    using r1 r2 subtract_result_and_flag [OF r1, of 0] subtract_result_and_flag [OF r2, of 0]
    by (simp add: poised_def interpreter_new_def decode_fields_def of_bool8_def)
qed

text \<open>
  C7. Shift right (0x8XY6) and shift left (0x8XYE): with the shift legacy flag set, which
  the original and the XO-CHIP presets do, the value shifted is register y's, assigned to
  register x first; with the flag unset, as in the S-CHIP preset, it is register x's own.
  Register x receives the shifted value, and then the flag register receives the bit
  shifted out of the value as it was before the shift: bit 0 for a right shift, bit 7 for
  a left shift.
\<close>

theorem shift_source_and_flag:
  assumes "ready st"
  shows "(m_opcode (m_state st) AND 0xf00f = 0x8006 \<longrightarrow>
            (let src = (if has_flag st shift_legacy then regs st ! y_of st else regs st ! x_of st)
             in execute rnd st =
                  Some (with_regs ((regs st)[x_of st := drop_bit 1 src, 15 := of_bool8 (bit src 0)]) st)))
       \<and> (m_opcode (m_state st) AND 0xf00f = 0x800e \<longrightarrow>
            (let src = (if has_flag st shift_legacy then regs st ! y_of st else regs st ! x_of st)
             in execute rnd st =
                  Some (with_regs ((regs st)[x_of st := push_bit 1 src, 15 := of_bool8 (bit src 7)]) st)))
       \<and> (m_flags st = chip8_original \<or> m_flags st = chip8_xochip \<longrightarrow> has_flag st shift_legacy)
       \<and> (m_flags st = chip8_schip \<longrightarrow> \<not> has_flag st shift_legacy)"
proof -
  note xy = ready_sized [OF assms] ready_xy(1,2) [OF assms]
  have "execute rnd st = body_80_06 st" if "m_opcode (m_state st) AND 0xf00f = 0x8006"
    using current_80 [OF assms that] by (simp add: execute_current bodies_80)
  moreover have "execute rnd st = body_80_0e st" if "m_opcode (m_state st) AND 0xf00f = 0x800e"
    using current_80 [OF assms that] by (simp add: execute_current bodies_80)
  ultimately show ?thesis
    using preset_flags [of st]
    by (auto simp: exec_80_06 [OF xy] exec_80_0e [OF xy] Let_def)
qed

theorem shift_source_and_flag_witness:
  "ready (poised chip8_xochip 0x8016 (0x80, 0x06) [4, 7, 0, 0, 0, 0, 0, 0, 0, 0, 0, 0, 0, 0, 0, 0] 0)
   \<and> execute 0 (poised chip8_xochip 0x8016 (0x80, 0x06) [4, 7, 0, 0, 0, 0, 0, 0, 0, 0, 0, 0, 0, 0, 0, 0] 0)
       = Some (poised chip8_xochip 0x8016 (0x80, 0x06) [3, 7, 0, 0, 0, 0, 0, 0, 0, 0, 0, 0, 0, 0, 0, 1] 0)
   \<and> ready (poised chip8_schip 0x801e (0x80, 0x0e) [0x81, 7, 0, 0, 0, 0, 0, 0, 0, 0, 0, 0, 0, 0, 0, 0] 0)
   \<and> execute 0 (poised chip8_schip 0x801e (0x80, 0x0e) [0x81, 7, 0, 0, 0, 0, 0, 0, 0, 0, 0, 0, 0, 0, 0, 0] 0)
       = Some (poised chip8_schip 0x801e (0x80, 0x0e) [2, 7, 0, 0, 0, 0, 0, 0, 0, 0, 0, 0, 0, 0, 0, 1] 0)"
proof -
  have r1: "ready (poised chip8_xochip 0x8016 (0x80, 0x06) [4, 7, 0, 0, 0, 0, 0, 0, 0, 0, 0, 0, 0, 0, 0, 0] 0)"
    by (simp add: ready_defs poised_defs families_80)
  have r2: "ready (poised chip8_schip 0x801e (0x80, 0x0e) [0x81, 7, 0, 0, 0, 0, 0, 0, 0, 0, 0, 0, 0, 0, 0, 0] 0)"
    by (simp add: ready_defs poised_defs families_80)
  have f1: "has_flag (poised chip8_xochip 0x8016 (0x80, 0x06) [4, 7, 0, 0, 0, 0, 0, 0, 0, 0, 0, 0, 0, 0, 0, 0] 0) shift_legacy"
    by (rule preset_flags(3) [THEN conjunct1]) (simp add: poised_defs)
  have f2: "\<not> has_flag (poised chip8_schip 0x801e (0x80, 0x0e) [0x81, 7, 0, 0, 0, 0, 0, 0, 0, 0, 0, 0, 0, 0, 0, 0] 0) shift_legacy"
    by (rule preset_flags(2) [THEN conjunct1]) (simp add: poised_defs)
  show ?thesis
    using r1 r2 f1 f2 shift_source_and_flag [OF r1, of 0] shift_source_and_flag [OF r2, of 0]
    by (simp add: poised_defs of_bool8_def)
qed

text \<open>
  C8, as amended. Under the original preset, OR (0x8XY1), AND (0x8XY2) and XOR (0x8XY3)
  write the bitwise result into register x and then set the flag register to 0. Under the
  S-CHIP and XO-CHIP presets they write register x only: the flag register is unmodified
  unless x is 15, where it is the destination and receives the bitwise result.
\<close>

theorem logical_flag_by_preset:
  assumes "ready st"
    and "m_opcode (m_state st) AND 0xf00f \<in> {0x8001, 0x8002, 0x8003}"
  shows "let r = logical_op (m_opcode (m_state st) AND 0x000f) (regs st ! x_of st) (regs st ! y_of st)
         in (m_flags st = chip8_original \<longrightarrow>
               execute rnd st = Some (with_regs ((regs st)[x_of st := r, 15 := 0]) st))
          \<and> (m_flags st = chip8_schip \<or> m_flags st = chip8_xochip \<longrightarrow>
               execute rnd st = Some (with_regs ((regs st)[x_of st := r]) st)
               \<and> (x_of st \<noteq> 15 \<longrightarrow> (regs st)[x_of st := r] ! 15 = regs st ! 15)
               \<and> (x_of st = 15 \<longrightarrow> (regs st)[x_of st := r] ! 15 = r))"
proof -
  note xy = ready_sized [OF assms(1)] ready_xy(1,2) [OF assms(1)]
  have len: "length (regs st) = 16" using xy(1) by (simp add: sized_def)
  have "execute rnd st = logical (logical_op (m_opcode (m_state st) AND 0x000f)) st"
    if "m_opcode (m_state st) AND 0xf00f = c" and "c \<in> {0x8001, 0x8002, 0x8003}" for c
  proof -
    have k: "m_opcode (m_state st) AND 0x000f = c AND 0x000f" by (rule mask_f00f(2) [OF that(1)])
    have cur: "m_currentInstruction st = Some (0x80, ucast (c AND 0x000f))"
      using that(2) by (intro current_80 [OF assms(1) that(1)]) auto
    have "logical_op 1 = (\<lambda>a b. a OR b)" "logical_op 2 = (\<lambda>a b. a AND b)"
      "logical_op 3 = (\<lambda>a b. a XOR b)"
      by (simp_all add: logical_op_def fun_eq_iff)
    then show ?thesis
      using that(2) cur k
      by (auto simp: execute_current bodies_80 body_80_01_def body_80_02_def body_80_03_def)
  qed
  with assms(2) have "execute rnd st = logical (logical_op (m_opcode (m_state st) AND 0x000f)) st"
    by blast
  then show ?thesis
    using preset_flags [of st] len
    by (auto simp: exec_logical [OF xy] Let_def)
qed

theorem logical_flag_by_preset_witness:
  "ready (poised chip8_original 0x8011 (0x80, 0x01) [5, 3, 0, 0, 0, 0, 0, 0, 0, 0, 0, 0, 0, 0, 0, 9] 0)
   \<and> execute 0 (poised chip8_original 0x8011 (0x80, 0x01) [5, 3, 0, 0, 0, 0, 0, 0, 0, 0, 0, 0, 0, 0, 0, 9] 0)
       = Some (poised chip8_original 0x8011 (0x80, 0x01) [7, 3, 0, 0, 0, 0, 0, 0, 0, 0, 0, 0, 0, 0, 0, 0] 0)
   \<and> ready (poised chip8_schip 0x8013 (0x80, 0x03) [5, 3, 0, 0, 0, 0, 0, 0, 0, 0, 0, 0, 0, 0, 0, 9] 0)
   \<and> execute 0 (poised chip8_schip 0x8013 (0x80, 0x03) [5, 3, 0, 0, 0, 0, 0, 0, 0, 0, 0, 0, 0, 0, 0, 9] 0)
       = Some (poised chip8_schip 0x8013 (0x80, 0x03) [6, 3, 0, 0, 0, 0, 0, 0, 0, 0, 0, 0, 0, 0, 0, 9] 0)"
proof -
  have r1: "ready (poised chip8_original 0x8011 (0x80, 0x01) [5, 3, 0, 0, 0, 0, 0, 0, 0, 0, 0, 0, 0, 0, 0, 9] 0)"
    by (simp add: ready_defs poised_defs families_80)
  have r2: "ready (poised chip8_schip 0x8013 (0x80, 0x03) [5, 3, 0, 0, 0, 0, 0, 0, 0, 0, 0, 0, 0, 0, 0, 9] 0)"
    by (simp add: ready_defs poised_defs families_80)
  show ?thesis
    using r1 r2 logical_flag_by_preset [OF r1, of 0] logical_flag_by_preset [OF r2, of 0]
    by (simp add: poised_defs logical_op_def Let_def)
qed

text \<open>
  C8 as stated fails when x is 15: under the XO-CHIP preset, 0x8F01 with 1 in register 0
  changes the flag register from 0 to 1.
\<close>

theorem logical_modifies_flag_as_destination:
  "m_flags (poised chip8_xochip 0x8f01 (0x80, 0x01) [1, 0, 0, 0, 0, 0, 0, 0, 0, 0, 0, 0, 0, 0, 0, 0] 0) = chip8_xochip
   \<and> ready (poised chip8_xochip 0x8f01 (0x80, 0x01) [1, 0, 0, 0, 0, 0, 0, 0, 0, 0, 0, 0, 0, 0, 0, 0] 0)
   \<and> m_opcode (m_state (poised chip8_xochip 0x8f01 (0x80, 0x01) [1, 0, 0, 0, 0, 0, 0, 0, 0, 0, 0, 0, 0, 0, 0, 0] 0)) AND 0xf00f = 0x8001
   \<and> regs (poised chip8_xochip 0x8f01 (0x80, 0x01) [1, 0, 0, 0, 0, 0, 0, 0, 0, 0, 0, 0, 0, 0, 0, 0] 0) ! 15 = 0
   \<and> map_option (\<lambda>s. regs s ! 15)
        (execute 0 (poised chip8_xochip 0x8f01 (0x80, 0x01) [1, 0, 0, 0, 0, 0, 0, 0, 0, 0, 0, 0, 0, 0, 0, 0] 0))
       = Some 1"
  by (simp add: ready_defs poised_defs families_80 execute_def bodies_80 body_80_01_def logical_def
      get_v_def set_v_def rd_def wr_def has_flag_def chip8_xochip_def store_load_legacy_def
      jump_offset_legacy_def shift_legacy_def logical_legacy_def)

text \<open>
  C10. When the decoded x field is 15, add with carry, subtract, subtract reverse and the
  two shifts change the register file in register 15 only, and leave there the flag value
  (0 or 1) they compute from the operands, whatever the arithmetic or shift result is: the
  flag is written after the result, into the same register.
\<close>

theorem flag_overwrites_result:
  assumes "ready st" and "x_of st = 15"
    and "m_opcode (m_state st) AND 0xf00f \<in> {0x8004, 0x8005, 0x8006, 0x8007, 0x800e}"
  shows "execute rnd st = Some (with_regs ((regs st)[15 := flag_value st]) st)
         \<and> (flag_value st = 0 \<or> flag_value st = 1)"
proof -
  note xy = ready_sized [OF assms(1)] ready_xy(1,2) [OF assms(1)]
  let ?goal = "execute rnd st = Some (with_regs ((regs st)[15 := flag_value st]) st)"
  have b: "flag_value st = 0 \<or> flag_value st = 1"
    by (simp add: flag_value_def of_bool8_def Let_def)
  have e4: ?goal if "m_opcode (m_state st) AND 0xf00f = 0x8004"
    using current_80 [OF assms(1) that] mask_f00f(2) [OF that] assms(2)
    by (simp add: execute_current bodies_80 exec_80_04 [OF xy] flag_value_def)
  have e5: ?goal if "m_opcode (m_state st) AND 0xf00f = 0x8005"
    using current_80 [OF assms(1) that] mask_f00f(2) [OF that] assms(2)
    by (simp add: execute_current bodies_80 exec_80_05 [OF xy] flag_value_def)
  have e6: ?goal if "m_opcode (m_state st) AND 0xf00f = 0x8006"
    using current_80 [OF assms(1) that] mask_f00f(2) [OF that] assms(2)
    by (simp add: execute_current bodies_80 exec_80_06 [OF xy] flag_value_def)
  have e7: ?goal if "m_opcode (m_state st) AND 0xf00f = 0x8007"
    using current_80 [OF assms(1) that] mask_f00f(2) [OF that] assms(2)
    by (simp add: execute_current bodies_80 exec_80_07 [OF xy] flag_value_def)
  have ee: ?goal if "m_opcode (m_state st) AND 0xf00f = 0x800e"
    using current_80 [OF assms(1) that] mask_f00f(2) [OF that] assms(2)
    by (simp add: execute_current bodies_80 exec_80_0e [OF xy] flag_value_def)
  from assms(3) e4 e5 e6 e7 ee have ?goal by blast
  with b show ?thesis by simp
qed

theorem flag_overwrites_result_witness:
  "ready (poised chip8_schip 0x8f14 (0x80, 0x04) [0, 100, 0, 0, 0, 0, 0, 0, 0, 0, 0, 0, 0, 0, 0, 200] 0)
   \<and> execute 0 (poised chip8_schip 0x8f14 (0x80, 0x04) [0, 100, 0, 0, 0, 0, 0, 0, 0, 0, 0, 0, 0, 0, 0, 200] 0)
       = Some (poised chip8_schip 0x8f14 (0x80, 0x04) [0, 100, 0, 0, 0, 0, 0, 0, 0, 0, 0, 0, 0, 0, 0, 1] 0)"
proof -
  have r1: "ready (poised chip8_schip 0x8f14 (0x80, 0x04) [0, 100, 0, 0, 0, 0, 0, 0, 0, 0, 0, 0, 0, 0, 0, 200] 0)"
    by (simp add: ready_defs poised_defs families_80)
  show ?thesis
    using r1 flag_overwrites_result [OF r1, of 0]
    by (simp add: poised_defs flag_value_def of_bool8_def)
qed

section \<open>Index register instructions\<close>

text \<open>
  C1 (the code differs from the claim). Under the store/load legacy flag, store registers
  (0xFX55) copies registers 0..x into memory from the index register on, load registers
  (0xFX65) copies the memory from the index register on into registers 0..x, and both
  then increment the index register by 1, whatever x is; the claim says by x + 1. The
  examples store registers 0..2 at 0x300, leaving the index register at 0x301, and load
  registers 0..2 from the address 5, leaving it at 6.
\<close>

theorem store_load_increment:
  assumes "ready st" and "has_flag st store_load_legacy"
    and "unat (m_index (m_registers st)) + x_of st + 1 \<le> c_maxMemory"
  shows "(m_opcode (m_state st) AND 0xf0ff = 0xf055 \<longrightarrow>
            (let i = unat (m_index (m_registers st)); mem = m_data (m_memory st)
             in execute rnd st =
                  Some (set_index (m_index (m_registers st) + 1)
                         (set_data (take i mem @ take (x_of st + 1) (regs st) @ drop (i + (x_of st + 1)) mem) st))))
       \<and> (m_opcode (m_state st) AND 0xf0ff = 0xf065 \<longrightarrow>
            (let i = unat (m_index (m_registers st)); mem = m_data (m_memory st)
             in execute rnd st =
                  Some (set_index (m_index (m_registers st) + 1)
                         (with_regs (take (x_of st + 1) (drop i mem) @ drop (x_of st + 1) (regs st)) st))))"
proof -
  note xy = ready_sized [OF assms(1)] ready_xy(1,2) [OF assms(1)]
  have len: "length (regs st) = 16" "length (m_data (m_memory st)) = c_maxMemory"
    using xy(1) by (simp_all add: sized_def)
  have "execute rnd st = body_f0_55 st" if "m_opcode (m_state st) AND 0xf0ff = 0xf055"
    using current_f0 [OF assms(1) that] by (simp add: execute_current bodies_other)
  moreover have "execute rnd st = body_f0_65 st" if "m_opcode (m_state st) AND 0xf0ff = 0xf065"
    using current_f0 [OF assms(1) that] by (simp add: execute_current bodies_other)
  ultimately show ?thesis
    using assms(2,3) xy(2) len
    by (simp add: body_f0_55_def body_f0_65_def memcpy_def Let_def has_flag_def set_data_def
        set_index_def)
qed

theorem store_load_increment_witness:
  "ready (poised chip8_original 0xf255 (0xf0, 0x55) [1, 2, 3, 4, 0, 0, 0, 0, 0, 0, 0, 0, 0, 0, 0, 0] 0x300)
   \<and> has_flag (poised chip8_original 0xf255 (0xf0, 0x55) [1, 2, 3, 4, 0, 0, 0, 0, 0, 0, 0, 0, 0, 0, 0, 0] 0x300)
         store_load_legacy
   \<and> x_of (poised chip8_original 0xf255 (0xf0, 0x55) [1, 2, 3, 4, 0, 0, 0, 0, 0, 0, 0, 0, 0, 0, 0, 0] 0x300) = 2
   \<and> map_option (\<lambda>s. (m_index (m_registers s), map (\<lambda>i. m_data (m_memory s) ! i) [0x300, 0x301, 0x302, 0x303]))
        (execute 0 (poised chip8_original 0xf255 (0xf0, 0x55) [1, 2, 3, 4, 0, 0, 0, 0, 0, 0, 0, 0, 0, 0, 0, 0] 0x300))
       = Some (0x301, [1, 2, 3, 0])
   \<and> ready (poised chip8_xochip 0xf265 (0xf0, 0x65) [1, 2, 3, 4, 0, 0, 0, 0, 0, 0, 0, 0, 0, 0, 0, 0] 5)
   \<and> has_flag (poised chip8_xochip 0xf265 (0xf0, 0x65) [1, 2, 3, 4, 0, 0, 0, 0, 0, 0, 0, 0, 0, 0, 0, 0] 5)
         store_load_legacy
   \<and> map_option (\<lambda>s. (m_index (m_registers s), regs s))
        (execute 0 (poised chip8_xochip 0xf265 (0xf0, 0x65) [1, 2, 3, 4, 0, 0, 0, 0, 0, 0, 0, 0, 0, 0, 0, 0] 5))
       = Some (6, [0x20, 0x60, 0x20, 4, 0, 0, 0, 0, 0, 0, 0, 0, 0, 0, 0, 0])"
proof -
  let ?w = "poised chip8_original 0xf255 (0xf0, 0x55) [1, 2, 3, 4, 0, 0, 0, 0, 0, 0, 0, 0, 0, 0, 0, 0] 0x300"
  let ?v = "poised chip8_xochip 0xf265 (0xf0, 0x65) [1, 2, 3, 4, 0, 0, 0, 0, 0, 0, 0, 0, 0, 0, 0, 0] 5"
  have r1: "ready ?w" and r2: "ready ?v"
    by (simp_all add: ready_defs poised_defs families_f0)
  have f1: "has_flag ?w store_load_legacy"
    by (rule preset_flags(1) [THEN conjunct2, THEN conjunct1]) (simp add: poised_defs)
  have f2: "has_flag ?v store_load_legacy"
    by (rule preset_flags(3) [THEN conjunct2, THEN conjunct1]) (simp add: poised_defs)
  have b1: "unat (m_index (m_registers ?w)) + x_of ?w + 1 \<le> c_maxMemory"
    and b2: "unat (m_index (m_registers ?v)) + x_of ?v + 1 \<le> c_maxMemory"
    by (simp_all add: poised_defs)
  have s1: "map_option (\<lambda>s. (m_index (m_registers s), map (\<lambda>i. m_data (m_memory s) ! i) [0x300, 0x301, 0x302, 0x303]))
        (execute 0 ?w) = Some (0x301, [1, 2, 3, 0])"
    using store_load_increment [OF r1 f1 b1, of 0]
    by (simp add: poised_defs set_index_def set_data_def nth_append)
  have s2: "map_option (\<lambda>s. (m_index (m_registers s), regs s)) (execute 0 ?v)
        = Some (6, [0x20, 0x60, 0x20, 4, 0, 0, 0, 0, 0, 0, 0, 0, 0, 0, 0, 0])"
    using store_load_increment [OF r2 f2 b2, of 0]
    by (simp add: poised_defs set_index_def)
  have x: "x_of ?w = 2" by (simp add: poised_defs)
  show ?thesis
    using r1 r2 f1 f2 s1 s2 x by simp
qed

text \<open>
  C2 (the code differs from the claim). The font-character-address instruction (0xFX29)
  adds to the index register the byte that memory holds at the address x, the opcode's
  register field: it reads neither register x nor a glyph offset. In a newly constructed
  interpreter that byte is byte x of the font data: with x = 0 and 1 in register 0 the
  index register advances by 0xF0, where the glyph of the digit 1 is at offset 5.
\<close>

theorem font_address_adds_memory_byte:
  assumes "ready st" and "m_opcode (m_state st) AND 0xf0ff = 0xf029"
  shows "execute rnd st =
           Some (set_index (m_index (m_registers st) + ucast (m_data (m_memory st) ! x_of st)) st)"
proof -
  note xy = ready_sized [OF assms(1)] ready_xy(1,2) [OF assms(1)]
  have len: "length (m_data (m_memory st)) = c_maxMemory"
    using xy(1) by (simp_all add: sized_def)
  have "execute rnd st = body_f0_29 st"
    using current_f0 [OF assms] by (simp add: execute_current bodies_other)
  then show ?thesis
    using xy(2) len
    by (simp add: body_f0_29_def m_font_def rd_def c_fontStartAddress_def c_maxMemory_def)
qed

theorem font_address_adds_memory_byte_witness:
  "ready (poised chip8_original 0xf029 (0xf0, 0x29) [1, 0, 0, 0, 0, 0, 0, 0, 0, 0, 0, 0, 0, 0, 0, 0] 0)
   \<and> regs (poised chip8_original 0xf029 (0xf0, 0x29) [1, 0, 0, 0, 0, 0, 0, 0, 0, 0, 0, 0, 0, 0, 0, 0] 0)
        ! x_of (poised chip8_original 0xf029 (0xf0, 0x29) [1, 0, 0, 0, 0, 0, 0, 0, 0, 0, 0, 0, 0, 0, 0, 0] 0) = 1
   \<and> map_option (\<lambda>s. m_index (m_registers s))
        (execute 0 (poised chip8_original 0xf029 (0xf0, 0x29) [1, 0, 0, 0, 0, 0, 0, 0, 0, 0, 0, 0, 0, 0, 0, 0] 0))
       = Some 0xf0"
proof -
  have r1: "ready (poised chip8_original 0xf029 (0xf0, 0x29) [1, 0, 0, 0, 0, 0, 0, 0, 0, 0, 0, 0, 0, 0, 0, 0] 0)"
    by (simp add: ready_defs poised_defs families_f0)
  show ?thesis
    using r1 font_address_adds_memory_byte [OF r1, of 0]
    by (simp add: poised_defs set_index_def)
qed

section \<open>Timers\<close>

text \<open>
  C9. For every state, key buffer and clock reading, if a step (\<open>advance\<close>) returns,
  then each timer ends one below the value the executed instruction left it with if the
  clock reports at least the tick period and that value is greater than 0, and ends
  unchanged otherwise: read as integers, the timers never go below 0 and lose at most 1
  in a step.
\<close>

theorem timers_saturate_at_zero:
  assumes "advance key_buffer rnd elapsed_ms now st = Some st'"
  shows "\<exists>mid. cycle key_buffer rnd st = Some mid
           \<and> st' = update_timers elapsed_ms now mid
           \<and> uint (m_delay (m_timers st')) =
               uint (m_delay (m_timers mid))
                 - (if 17 \<le> elapsed_ms \<and> 0 < uint (m_delay (m_timers mid)) then 1 else 0)
           \<and> uint (m_sound (m_timers st')) =
               uint (m_sound (m_timers mid))
                 - (if 17 \<le> elapsed_ms \<and> 0 < uint (m_sound (m_timers mid)) then 1 else 0)
           \<and> 0 \<le> uint (m_delay (m_timers st')) \<and> 0 \<le> uint (m_sound (m_timers st'))"
proof -
  from assms obtain mid where c: "cycle key_buffer rnd st = Some mid"
    and s: "st' = update_timers elapsed_ms now mid"
    by (auto simp: advance_def split: Option.bind_splits)
  have dec: "uint (w - 1) = uint w - 1" if "0 < w" for w :: u8
    using that uint_sub_lem [of 1 w] by (simp add: word_less_def)
  have d: "uint (m_delay (m_timers (update_timers elapsed_ms now mid))) =
      uint (m_delay (m_timers mid))
        - (if 17 \<le> elapsed_ms \<and> 0 < uint (m_delay (m_timers mid)) then 1 else 0)"
    by (simp add: update_timers_def Let_def dec word_less_def)
  have e: "uint (m_sound (m_timers (update_timers elapsed_ms now mid))) =
      uint (m_sound (m_timers mid))
        - (if 17 \<le> elapsed_ms \<and> 0 < uint (m_sound (m_timers mid)) then 1 else 0)"
    by (simp add: update_timers_def Let_def dec word_less_def)
  show ?thesis using c s d e by simp
qed

theorem timers_saturate_at_zero_witness:
  "\<exists>st'. advance (replicate 16 0) 0 20 1000
           ((rom_loaded chip8_original [0x60, 0x05])\<lparr>m_timers := \<lparr>m_delay = 3, m_sound = 0\<rparr>\<rparr>) = Some st'
         \<and> uint (m_delay (m_timers st')) = 2 \<and> uint (m_sound (m_timers st')) = 0"
proof -
  let ?w = "(rom_loaded chip8_original [0x60, 0x05])\<lparr>m_timers := \<lparr>m_delay = 3, m_sound = 0\<rparr>\<rparr>"
  have c: "map_option m_timers (cycle (replicate 16 0) 0 ?w) = Some \<lparr>m_delay = 3, m_sound = 0\<rparr>"
    by (simp add: cycle_def memcpy_def rom_loaded_def interpreter_new_def c_fontset_def
        c_maxMemory_def c_maxStack_def c_displaySize_def c_displayWidth_def c_displayHeight_def
        c_maxKeys_def c_romStartAddress_def set_data_def fetch_def rd_def nth_append decode_def
        Let_def decode_fields_def families_60 execute_def instruction_body_def body_60_00_def
        set_v_def wr_def)
  then obtain mid where m: "cycle (replicate 16 0) 0 ?w = Some mid"
    and t: "m_timers mid = \<lparr>m_delay = 3, m_sound = 0\<rparr>"
    by auto
  have a: "advance (replicate 16 0) 0 20 1000 ?w = Some (update_timers 20 1000 mid)"
    by (simp add: advance_def m)
  show ?thesis
    using timers_saturate_at_zero [OF a] a m t by auto
qed

section \<open>The draw instruction\<close>

subsection \<open>The loops as a fold over the drawn pixels\<close>

lemma for_each_filter:
  assumes "\<And>i s. i \<in> set xs \<Longrightarrow> I s \<Longrightarrow> body i s = Some (if P i then g i s else s)"
    and "\<And>i s. i \<in> set xs \<Longrightarrow> I s \<Longrightarrow> I (g i s)"
    and "I s"
  shows "for_each xs body s = Some (fold g (filter P xs) s) \<and> I (fold g (filter P xs) s)"
  using assms
proof (induction xs arbitrary: s)
  case Nil
  then show ?case by simp
next
  case (Cons i xs)
  have step: "body i s = Some (if P i then g i s else s)"
    by (rule Cons.prems(1)) (simp_all add: Cons.prems(3))
  have inv: "I (if P i then g i s else s)"
    using Cons.prems(2) [of i s] Cons.prems(3) by simp
  have "for_each xs body (if P i then g i s else s) =
          Some (fold g (filter P xs) (if P i then g i s else s))
        \<and> I (fold g (filter P xs) (if P i then g i s else s))"
    by (rule Cons.IH) (simp_all add: Cons.prems(1,2) inv)
  then show ?case by (cases "P i") (simp_all add: step)
qed

lemma fold_product:
  "fold (\<lambda>y. fold f (map (Pair y) xs)) ys s = fold f (List.product ys xs) s"
  by (induction ys arbitrary: s) simp_all

lemma of_bool8_or: "of_bool8 P OR of_bool8 Q = of_bool8 (P \<or> Q)"
  by (simp add: of_bool8_def)

lemma xor_zero_eq: "((v :: u8) XOR w = 0) = (v = w)"
  by (metis xor.right_neutral xor_self_eq xor.assoc)

lemma collide: "(v \<noteq> 0 \<and> v XOR of_bool8 t = 0) = (t \<and> v = 1)"
  by (auto simp: of_bool8_def xor_zero_eq)

lemma length_fold_plot: "length (fst (fold (plot c b) ps acc)) = length (fst acc)"
  by (induction ps arbitrary: acc) (simp_all add: plot_def Let_def)

lemma blit_fold:
  assumes "distinct ps" and "inj_on c (set ps)" and "\<forall>p \<in> set ps. c p < length d"
  shows "fold (plot c b) ps (d, a) =
           (blit_display c b ps d, a OR of_bool8 (\<exists>p \<in> set ps. b p \<and> d ! c p = 1))"
  using assms
proof (induction ps arbitrary: d a)
  case Nil
  then show ?case by (simp add: blit_display_def of_bool8_def map_nth)
next
  case (Cons p ps)
  let ?d1 = "d[c p := d ! c p XOR of_bool8 (b p)]"
  let ?a1 = "a OR of_bool8 (b p \<and> d ! c p = 1)"
  have fresh: "c q \<noteq> c p" if "q \<in> set ps" for q
    using Cons.prems(1,2) that by (auto simp: inj_on_def)
  have step: "plot c b p (d, a) = (?d1, ?a1)"
    by (simp add: plot_def Let_def collide)
  have ih: "fold (plot c b) ps (?d1, ?a1) =
      (blit_display c b ps ?d1, ?a1 OR of_bool8 (\<exists>q \<in> set ps. b q \<and> ?d1 ! c q = 1))"
    using Cons.prems by (intro Cons.IH) (auto simp: inj_on_def)
  have disp: "blit_display c b ps ?d1 = blit_display c b (p # ps) d"
  proof (rule nth_equalityI)
    show "length (blit_display c b ps ?d1) = length (blit_display c b (p # ps) d)"
      by (simp add: blit_display_def)
  next
    fix k assume "k < length (blit_display c b ps ?d1)"
    then have k: "k < length d" by (simp add: blit_display_def)
    show "blit_display c b ps ?d1 ! k = blit_display c b (p # ps) d ! k"
    proof (cases "k = c p")
      case True
      have no: "(\<exists>q \<in> set ps. c q = c p \<and> b q) = False" using fresh by auto
      show ?thesis using True k by (simp add: blit_display_def no of_bool8_def)
    next
      case False
      then show ?thesis using k by (simp add: blit_display_def)
    qed
  qed
  have same: "?d1 ! c q = d ! c q" if "q \<in> set ps" for q
    using fresh [OF that] by simp
  have "(\<exists>q \<in> set ps. b q \<and> ?d1 ! c q = 1) = (\<exists>q \<in> set ps. b q \<and> d ! c q = 1)"
    by (rule bex_cong) (simp_all add: same)
  then have flag: "?a1 OR of_bool8 (\<exists>q \<in> set ps. b q \<and> ?d1 ! c q = 1)
      = a OR of_bool8 (\<exists>q \<in> set (p # ps). b q \<and> d ! c q = 1)"
    by (auto simp: of_bool8_def word_bw_assocs)
  show ?case using step ih disp flag by simp
qed

lemma and63n: "(n :: nat) AND 63 = n mod 64"
  using take_bit_eq_mask [of 6 n] by (simp add: mask_eq_exp_minus_1 take_bit_eq_mod)

lemma and31n: "(n :: nat) AND 31 = n mod 32"
  using take_bit_eq_mask [of 5 n] by (simp add: mask_eq_exp_minus_1 take_bit_eq_mod)

lemma cell_lt: "(r mod 32) * 64 + c mod 64 < (2048 :: nat)"
proof -
  have "r mod 32 \<le> 31" by (simp add: less_Suc_eq_le [symmetric])
  then have "(r mod 32) * 64 \<le> 31 * 64" by (rule mult_le_mono1)
  moreover have "c mod 64 < 64" by simp
  ultimately show ?thesis by linarith
qed

lemma draw_pixel_plot:
  assumes "length (fst acc) = c_displaySize"
  shows "draw_pixel legacy coordx (r mod 32) sprite x acc =
           Some (if \<not> (legacy \<and> 64 < coordx + x)
                 then plot (\<lambda>x. (r mod 32) * 64 + (coordx + x) mod 64) (\<lambda>x. bit sprite (7 - x)) x acc
                 else acc)"
  using assms cell_lt [of r "coordx + x"]
  by (simp add: draw_pixel_def plot_def Let_def rd_def wr_def c_displayWidth_def c_displaySize_def
      c_displayHeight_def and63n bit_iff_and_push_bit_not_eq_0)

lemma draw_row_plot:
  assumes "length (fst acc) = c_displaySize" and "index + y < length mem"
  shows "draw_row legacy coordx coordy mem index y acc =
           Some (if \<not> (legacy \<and> 32 < coordy + y)
                 then fold (plot (\<lambda>p. ((coordy + fst p) mod 32) * 64 + (coordx + snd p) mod 64)
                              (\<lambda>p. bit (mem ! (index + fst p)) (7 - snd p)))
                        (map (Pair y) (filter (\<lambda>x. \<not> (legacy \<and> 64 < coordx + x)) [0..<8])) acc
                 else acc)"
proof -
  let ?c = "\<lambda>p. ((coordy + fst p) mod 32) * 64 + (coordx + snd p) mod 64"
  let ?b = "\<lambda>p. bit (mem ! (index + fst p)) (7 - snd p)"
  let ?g = "\<lambda>x. plot (\<lambda>x. ((coordy + y) mod 32) * 64 + (coordx + x) mod 64)
                    (\<lambda>x. bit (mem ! (index + y)) (7 - x)) x"
  have g: "?g = (\<lambda>x. plot ?c ?b (y, x))"
    by (simp add: plot_def fun_eq_iff)
  have "for_each [0..<8] (draw_pixel legacy coordx ((coordy + y) mod 32) (mem ! (index + y))) acc =
          Some (fold ?g (filter (\<lambda>x. \<not> (legacy \<and> 64 < coordx + x)) [0..<8]) acc)
        \<and> length (fst (fold ?g (filter (\<lambda>x. \<not> (legacy \<and> 64 < coordx + x)) [0..<8]) acc)) = c_displaySize"
    by (rule for_each_filter [where I = "\<lambda>s. length (fst s) = c_displaySize"])
       (simp_all add: draw_pixel_plot assms(1) plot_def Let_def)
  then have "for_each [0..<8] (draw_pixel legacy coordx ((coordy + y) mod 32) (mem ! (index + y))) acc =
          Some (fold (plot ?c ?b) (map (Pair y) (filter (\<lambda>x. \<not> (legacy \<and> 64 < coordx + x)) [0..<8])) acc)"
    by (simp add: g fold_map comp_def)
  then show ?thesis
    using assms(2)
    by (simp add: draw_row_def Let_def rd_def c_displayHeight_def and31n)
qed

lemma product_filter:
  "List.product (filter P ys) (filter Q xs) = filter (\<lambda>p. P (fst p) \<and> Q (snd p)) (List.product ys xs)"
  by (induction ys) (simp_all add: filter_map comp_def)

lemma mod_shift_le:
  fixes a y y' m :: nat
  assumes "(a + y) mod m = (a + y') mod m" and "y \<le> y'" and "y' < m"
  shows "y = y'"
proof -
  have "m dvd (a + y') - (a + y)"
    using assms(1,2) mod_eq_dvd_iff_nat [of "a + y" "a + y'" m] by simp
  then have "m dvd y' - y" by simp
  moreover have "y' - y < m" using assms(3) by simp
  ultimately have "y' - y = 0" by (meson dvd_imp_le gr_zeroI not_less)
  then show ?thesis using assms(2) by simp
qed

lemma mod_shift_inj:
  fixes a y y' m :: nat
  assumes "(a + y) mod m = (a + y') mod m" and "y < m" and "y' < m"
  shows "y = y'"
proof (cases "y \<le> y'")
  case True
  then show ?thesis using mod_shift_le [OF assms(1) True assms(3)] by simp
next
  case False
  then have "y' \<le> y" by simp
  then show ?thesis using mod_shift_le [OF assms(1) [symmetric] _ assms(2)] by simp
qed

lemma target_inj:
  fixes a b :: nat
  assumes "((a + y) mod 32) * 64 + (b + x) mod 64 = ((a + y') mod 32) * 64 + (b + x') mod 64"
    and "y < 32" "y' < 32" "x < 64" "x' < 64"
  shows "y = y' \<and> x = x'"
proof -
  have r: "(a + y) mod 32 = (a + y') mod 32"
    using arg_cong [OF assms(1), of "\<lambda>k. k div 64"] by simp
  have c: "(b + x) mod 64 = (b + x') mod 64"
    using arg_cong [OF assms(1), of "\<lambda>k. k mod 64"] by simp
  show ?thesis
    using mod_shift_inj [OF r assms(2,3)] mod_shift_inj [OF c assms(4,5)] by simp
qed

lemma drawn_set:
  assumes "p \<in> set (drawn st)"
  shows "fst p < unat (m_n (m_state st))" and "snd p < 8" and "\<not> skipped st p"
  using assms by (auto simp: drawn_def)

lemma distinct_drawn: "distinct (drawn st)"
  by (simp add: drawn_def distinct_product)

lemma target_lt: "target st p < c_displaySize"
  using cell_lt [of "snd (coord st) + fst p" "fst (coord st) + snd p"]
  by (simp add: target_def c_displaySize_def c_displayWidth_def c_displayHeight_def)

lemma inj_target:
  assumes "unat (m_n (m_state st)) < 16"
  shows "inj_on (target st) (set (drawn st))"
proof (rule inj_onI)
  fix p q
  assume p: "p \<in> set (drawn st)" and q: "q \<in> set (drawn st)" and e: "target st p = target st q"
  have "fst p = fst q \<and> snd p = snd q"
    using e drawn_set(1,2) [OF p] drawn_set(1,2) [OF q] assms
    by (intro target_inj [where a = "snd (coord st)" and b = "fst (coord st)"])
       (simp_all add: target_def c_displayWidth_def c_displayHeight_def)
  then show "p = q" by (simp add: prod_eq_iff)
qed

lemma exec_d0:
  assumes "ready st"
    and "unat (m_index (m_registers st)) + unat (m_n (m_state st)) \<le> c_maxMemory"
  shows "body_d0_00 st =
           Some (update_flag
                  (of_bool8 (\<exists>p \<in> set (drawn st). sprite_bit st p \<and> m_display st ! target st p = 1))
                  (st\<lparr>m_display := blit_display (target st) (sprite_bit st) (drawn st) (m_display st)\<rparr>))"
proof -
  note xy = ready_sized [OF assms(1)] ready_xy [OF assms(1)]
  let ?legacy = "has_flag st draw_legacy"
  let ?cx = "fst (coord st)" and ?cy = "snd (coord st)"
  let ?mem = "m_data (m_memory st)" and ?idx = "unat (m_index (m_registers st))"
  let ?n = "unat (m_n (m_state st))"
  let ?cols = "filter (\<lambda>x. \<not> (?legacy \<and> 64 < ?cx + x)) [0..<8]"
  let ?rows = "filter (\<lambda>y. \<not> (?legacy \<and> 32 < ?cy + y)) [0..<?n]"
  have len: "length (m_display st) = c_displaySize" "length ?mem = c_maxMemory"
    using xy(1) by (simp_all add: sized_def)
  have tgt: "(\<lambda>p. ((?cy + fst p) mod 32) * 64 + (?cx + snd p) mod 64) = target st"
    by (simp add: target_def fun_eq_iff c_displayWidth_def c_displayHeight_def)
  have sb: "(\<lambda>p. bit (?mem ! (?idx + fst p)) (7 - snd p)) = sprite_bit st"
    by (simp add: sprite_bit_def fun_eq_iff)
  have row: "draw_row ?legacy ?cx ?cy ?mem ?idx y acc =
      Some (if \<not> (?legacy \<and> 32 < ?cy + y)
            then fold (plot (target st) (sprite_bit st)) (map (Pair y) ?cols) acc else acc)"
    if "y \<in> set [0..<?n]" and "length (fst acc) = c_displaySize" for y acc
    using draw_row_plot [OF that(2), of ?idx y ?mem ?legacy ?cx ?cy] that(1) assms(2) len(2)
    by (simp add: tgt sb)
  have loop: "for_each [0..<?n] (draw_row ?legacy ?cx ?cy ?mem ?idx) (m_display st, 0) =
      Some (fold (\<lambda>y. fold (plot (target st) (sprite_bit st)) (map (Pair y) ?cols)) ?rows (m_display st, 0))"
    using for_each_filter [where I = "\<lambda>s. length (fst s) = c_displaySize"
        and body = "draw_row ?legacy ?cx ?cy ?mem ?idx" and xs = "[0..<?n]"
        and P = "\<lambda>y. \<not> (?legacy \<and> 32 < ?cy + y)"
        and g = "\<lambda>y. fold (plot (target st) (sprite_bit st)) (map (Pair y) ?cols)"
        and s = "(m_display st, 0)"]
    by (simp add: row len(1) length_fold_plot)
  have pix: "List.product ?rows ?cols = drawn st"
    by (simp add: product_filter drawn_def skipped_def c_displayWidth_def c_displayHeight_def)
       (metis (mono_tags, lifting) filter_cong)
  have bl: "fold (plot (target st) (sprite_bit st)) (drawn st) (m_display st, 0) =
      (blit_display (target st) (sprite_bit st) (drawn st) (m_display st),
       0 OR of_bool8 (\<exists>p \<in> set (drawn st). sprite_bit st p \<and> m_display st ! target st p = 1))"
    by (rule blit_fold) (simp_all add: distinct_drawn inj_target xy(4) target_lt len(1))
  have cx: "unat (regs st ! x_of st) AND (c_displayWidth - Suc 0) = ?cx"
    and cy: "unat (regs st ! y_of st) AND (c_displayHeight - Suc 0) = ?cy"
    by (simp_all add: coord_def c_displayWidth_def c_displayHeight_def and63n and31n)
  have "for_each [0..<?n] (draw_row ?legacy ?cx ?cy ?mem ?idx) (m_display st, 0) =
      Some (blit_display (target st) (sprite_bit st) (drawn st) (m_display st),
            0 OR of_bool8 (\<exists>p \<in> set (drawn st). sprite_bit st p \<and> m_display st ! target st p = 1))"
    by (simp only: loop fold_product pix bl)
  then show ?thesis
    by (simp add: body_d0_00_def get_v_sized [OF xy(1)] xy(2,3) cx cy)
qed

subsection \<open>The display after a draw\<close>

lemma blit_nth:
  "k < length d \<Longrightarrow>
     blit_display c b ps d ! k = d ! k XOR of_bool8 (\<exists>p \<in> set ps. c p = k \<and> b p)"
  by (simp add: blit_display_def)

lemma length_blit: "length (blit_display c b ps d) = length d"
  by (simp add: blit_display_def)

lemma blit_twice: "blit_display c b ps (blit_display c b ps d) = d"
  by (rule nth_equalityI) (simp_all add: length_blit blit_nth of_bool8_def xor.assoc)

lemma target_eq:
  assumes "target st p = target st q"
    and "fst p < 16" "snd p < 8" "fst q < 16" "snd q < 8"
  shows "p = q"
proof -
  have "fst p = fst q \<and> snd p = snd q"
    using assms
    by (intro target_inj [where a = "snd (coord st)" and b = "fst (coord st)"])
       (simp_all add: target_def c_displayWidth_def c_displayHeight_def)
  then show ?thesis by (simp add: prod_eq_iff)
qed

lemma hit_iff:
  assumes "unat (m_n (m_state st)) < 16" and "fst p < unat (m_n (m_state st))" and "snd p < 8"
  shows "(\<exists>q \<in> set (drawn st). target st q = target st p \<and> sprite_bit st q)
           = (\<not> skipped st p \<and> sprite_bit st p)"
proof
  assume "\<exists>q \<in> set (drawn st). target st q = target st p \<and> sprite_bit st q"
  then obtain q where q: "q \<in> set (drawn st)" "target st q = target st p" "sprite_bit st q"
    by blast
  have "q = p"
    using q(2) drawn_set(1,2) [OF q(1)] assms by (intro target_eq [of st]) simp_all
  then show "\<not> skipped st p \<and> sprite_bit st p"
    using q(3) drawn_set(3) [OF q(1)] by simp
next
  assume a: "\<not> skipped st p \<and> sprite_bit st p"
  then have "p \<in> set (drawn st)"
    using assms(2,3) by (cases p) (simp add: drawn_def)
  then show "\<exists>q \<in> set (drawn st). target st q = target st p \<and> sprite_bit st q"
    using a by blast
qed

lemma ready_frame:
  assumes "ready st" and "sized st'" and "m_state st' = m_state st"
    and "m_currentInstruction st' = m_currentInstruction st"
  shows "ready st'"
proof -
  let ?op = "m_opcode (m_state st)"
  let ?fk = "ucast (drop_bit 8 (?op AND 0xf000)) :: u8"
  from assms(1) have d: "decode st = Some st"
    and f: "m_state st = decode_fields (m_opcode (m_state st))"
    by (simp_all add: ready_def)
  from d obtain fam where fam: "m_families ?fk = Some fam"
    and mem: "(ucast (?op AND m_opcodeMask fam) :: u8) \<in> set (m_instructions fam)"
    by (auto simp: decode_def Let_def unimplemented_def split: option.splits if_splits)
  have cur: "m_currentInstruction st = Some (?fk, ucast (?op AND m_opcodeMask fam))"
    by (rule decode_current [OF d fam])
  have "decode st' = Some (st'\<lparr>m_currentInstruction := Some (?fk, ucast (?op AND m_opcodeMask fam))\<rparr>)"
    using fam mem by (simp add: decode_def Let_def assms(3))
  moreover have "st'\<lparr>m_currentInstruction := Some (?fk, ucast (?op AND m_opcodeMask fam))\<rparr> = st'"
    using cur assms(4) by simp
  ultimately show ?thesis using f assms(2,3) by (simp add: ready_def)
qed

lemma draw_frame:
  assumes "regs st1 ! x_of st = regs st ! x_of st" and "regs st1 ! y_of st = regs st ! y_of st"
    and "m_state st1 = m_state st" and "m_flags st1 = m_flags st"
    and "m_memory st1 = m_memory st"
    and "m_index (m_registers st1) = m_index (m_registers st)"
  shows "target st1 = target st" and "sprite_bit st1 = sprite_bit st" and "drawn st1 = drawn st"
proof -
  have co: "coord st1 = coord st"
    using assms(1,2,3) by (simp add: coord_def)
  show "target st1 = target st"
    by (simp add: target_def fun_eq_iff co)
  show "sprite_bit st1 = sprite_bit st"
    by (simp add: sprite_bit_def fun_eq_iff assms(5,6))
  show "drawn st1 = drawn st"
    by (simp add: drawn_def skipped_def co has_flag_def assms(3,4))
qed

lemma draw_cells:
  assumes "ready st" and "m_opcode (m_state st) AND 0xf000 = 0xd000"
    and "unat (m_index (m_registers st)) + unat (m_n (m_state st)) \<le> c_maxMemory"
  shows "\<exists>st'. execute rnd st = Some st' \<and>
           (\<forall>y < unat (m_n (m_state st)). \<forall>x < 8.
              m_display st' ! target st (y, x) =
                m_display st ! target st (y, x)
                  XOR of_bool8 (\<not> skipped st (y, x) \<and> sprite_bit st (y, x)))"
proof -
  note n = ready_xy(3) [OF assms(1)]
  have len: "length (m_display st) = c_displaySize"
    using ready_sized [OF assms(1)] by (simp add: sized_def)
  have e: "execute rnd st = body_d0_00 st"
    using current_d0 [OF assms(1,2)] by (simp add: execute_current bodies_other)
  have "m_display (update_flag v (st\<lparr>m_display := blit_display (target st) (sprite_bit st) (drawn st) (m_display st)\<rparr>))
          ! target st (y, x)
        = m_display st ! target st (y, x)
            XOR of_bool8 (\<not> skipped st (y, x) \<and> sprite_bit st (y, x))"
    if "y < unat (m_n (m_state st))" and "x < 8" for y x v
    using hit_iff [OF n, of "(y, x)"] that target_lt [of st "(y, x)"]
    by (simp add: update_flag_def blit_nth len)
  then show ?thesis
    by (simp add: e exec_d0 [OF assms(1,3)])
qed

text \<open>
  C3 (the code differs from the claim). With the draw legacy flag set, the draw
  instruction (0xDXYN) skips a sprite row only when its coordinate \<open>coordy + y\<close> is
  greater than 32, and a sprite column only when its coordinate \<open>coordx + x\<close> is greater
  than 64: the tests are \<open>coordyy > c_displayHeight\<close> and \<open>coordxx > c_displayWidth\<close>. The
  display has the rows 0..31 and the columns 0..63, so the row at the coordinate 32 and
  the column at the coordinate 64 are beyond the display bound too; the claim says they
  are skipped instead of wrapped, and the code wraps them: it draws the row at the
  coordinate 32 on row 0 and the column at the coordinate 64 on column 0. Pixels at greater
  coordinates are left out, as the claim says, and every other pixel is drawn, by XOR, on
  the cell its wrapped coordinates give. The example draws the glyph of 0 at (62, 30) on
  an empty display: the sprite row at the coordinate 33 and the column at 65 are not
  drawn, the row at the coordinate 32 lights the cell (62, 0) and the column at 64 lights
  the cell (0, 30).
\<close>

theorem draw_legacy_skips:
  assumes "ready st" and "m_opcode (m_state st) AND 0xf000 = 0xd000"
    and "has_flag st draw_legacy"
    and "unat (m_index (m_registers st)) + unat (m_n (m_state st)) \<le> c_maxMemory"
  shows "\<exists>st'. execute rnd st = Some st' \<and>
           (\<forall>y < unat (m_n (m_state st)). \<forall>x < 8.
              (c_displayHeight < snd (coord st) + y \<or> c_displayWidth < fst (coord st) + x \<longrightarrow>
                 m_display st' ! target st (y, x) = m_display st ! target st (y, x))
            \<and> (\<not> (c_displayHeight < snd (coord st) + y \<or> c_displayWidth < fst (coord st) + x) \<longrightarrow>
                 m_display st' ! target st (y, x) =
                   m_display st ! target st (y, x) XOR of_bool8 (sprite_bit st (y, x)))
            \<and> (snd (coord st) + y = c_displayHeight \<and> fst (coord st) + x < c_displayWidth \<longrightarrow>
                 m_display st' ! (0 * c_displayWidth + (fst (coord st) + x)) =
                   m_display st ! (0 * c_displayWidth + (fst (coord st) + x))
                     XOR of_bool8 (sprite_bit st (y, x)))
            \<and> (fst (coord st) + x = c_displayWidth \<and> snd (coord st) + y < c_displayHeight \<longrightarrow>
                 m_display st' ! ((snd (coord st) + y) * c_displayWidth + 0) =
                   m_display st ! ((snd (coord st) + y) * c_displayWidth + 0)
                     XOR of_bool8 (sprite_bit st (y, x))))"
proof -
  from draw_cells [OF assms(1,2,4), of rnd] obtain st' where e: "execute rnd st = Some st'"
    and c: "\<And>y x. y < unat (m_n (m_state st)) \<Longrightarrow> x < 8 \<Longrightarrow>
              m_display st' ! target st (y, x) =
                m_display st ! target st (y, x)
                  XOR of_bool8 (\<not> skipped st (y, x) \<and> sprite_bit st (y, x))"
    by blast
  have row: "target st (y, x) = 0 * c_displayWidth + (fst (coord st) + x) \<and> \<not> skipped st (y, x)"
    if "snd (coord st) + y = c_displayHeight" and "fst (coord st) + x < c_displayWidth" for y x
    using that by (simp add: target_def skipped_def)
  have col: "target st (y, x) = (snd (coord st) + y) * c_displayWidth + 0 \<and> \<not> skipped st (y, x)"
    if "fst (coord st) + x = c_displayWidth" and "snd (coord st) + y < c_displayHeight" for y x
    using that by (simp add: target_def skipped_def)
  have a: "m_display st' ! target st (y, x) = m_display st ! target st (y, x)"
    if "y < unat (m_n (m_state st))" and "x < 8"
      and "c_displayHeight < snd (coord st) + y \<or> c_displayWidth < fst (coord st) + x" for y x
    using that assms(3) by (simp add: c skipped_def of_bool8_def)
  have b: "m_display st' ! target st (y, x) =
             m_display st ! target st (y, x) XOR of_bool8 (sprite_bit st (y, x))"
    if "y < unat (m_n (m_state st))" and "x < 8"
      and "\<not> (c_displayHeight < snd (coord st) + y \<or> c_displayWidth < fst (coord st) + x)" for y x
    using that by (simp add: c skipped_def)
  have r: "m_display st' ! (0 * c_displayWidth + (fst (coord st) + x)) =
             m_display st ! (0 * c_displayWidth + (fst (coord st) + x))
               XOR of_bool8 (sprite_bit st (y, x))"
    if "y < unat (m_n (m_state st))" and "x < 8"
      and "snd (coord st) + y = c_displayHeight" and "fst (coord st) + x < c_displayWidth" for y x
    using c [OF that(1,2)] row [OF that(3,4)] by simp
  have l: "m_display st' ! ((snd (coord st) + y) * c_displayWidth + 0) =
             m_display st ! ((snd (coord st) + y) * c_displayWidth + 0)
               XOR of_bool8 (sprite_bit st (y, x))"
    if "y < unat (m_n (m_state st))" and "x < 8"
      and "fst (coord st) + x = c_displayWidth" and "snd (coord st) + y < c_displayHeight" for y x
    using c [OF that(1,2)] col [OF that(3,4)] by simp
  show ?thesis
    using e a b r l by blast
qed

lemma font_bytes:
  "m_data (m_memory (poised fl op k vs idx)) ! 0 = 0xF0"
  "m_data (m_memory (poised fl op k vs idx)) ! 1 = 0x90"
  "m_data (m_memory (poised fl op k vs idx)) ! 2 = 0x90"
  "m_data (m_memory (poised fl op k vs idx)) ! 3 = 0x90"
  "m_data (m_memory (poised fl op k vs idx)) ! 4 = 0xF0"
  by (simp_all add: poised_defs)

theorem draw_legacy_skips_witness:
  "ready (poised chip8_original 0xd015 (0xd0, 0x00) [62, 30, 0, 0, 0, 0, 0, 0, 0, 0, 0, 0, 0, 0, 0, 0] 0)
   \<and> has_flag (poised chip8_original 0xd015 (0xd0, 0x00) [62, 30, 0, 0, 0, 0, 0, 0, 0, 0, 0, 0, 0, 0, 0, 0] 0)
        draw_legacy
   \<and> coord (poised chip8_original 0xd015 (0xd0, 0x00) [62, 30, 0, 0, 0, 0, 0, 0, 0, 0, 0, 0, 0, 0, 0, 0] 0)
        = (62, 30)
   \<and> sprite_bit (poised chip8_original 0xd015 (0xd0, 0x00) [62, 30, 0, 0, 0, 0, 0, 0, 0, 0, 0, 0, 0, 0, 0, 0] 0) (3, 0)
   \<and> sprite_bit (poised chip8_original 0xd015 (0xd0, 0x00) [62, 30, 0, 0, 0, 0, 0, 0, 0, 0, 0, 0, 0, 0, 0, 0] 0) (0, 3)
   \<and> sprite_bit (poised chip8_original 0xd015 (0xd0, 0x00) [62, 30, 0, 0, 0, 0, 0, 0, 0, 0, 0, 0, 0, 0, 0, 0] 0) (2, 0)
   \<and> sprite_bit (poised chip8_original 0xd015 (0xd0, 0x00) [62, 30, 0, 0, 0, 0, 0, 0, 0, 0, 0, 0, 0, 0, 0, 0] 0) (0, 2)
   \<and> m_display (poised chip8_original 0xd015 (0xd0, 0x00) [62, 30, 0, 0, 0, 0, 0, 0, 0, 0, 0, 0, 0, 0, 0, 0] 0) ! (0 * 64 + 62) = 0
   \<and> m_display (poised chip8_original 0xd015 (0xd0, 0x00) [62, 30, 0, 0, 0, 0, 0, 0, 0, 0, 0, 0, 0, 0, 0, 0] 0) ! (30 * 64 + 0) = 0
   \<and> (\<exists>st'. execute 0 (poised chip8_original 0xd015 (0xd0, 0x00) [62, 30, 0, 0, 0, 0, 0, 0, 0, 0, 0, 0, 0, 0, 0, 0] 0)
               = Some st'
            \<and> m_display st' ! (1 * 64 + 62) = 0
            \<and> m_display st' ! (30 * 64 + 1) = 0
            \<and> m_display st' ! (0 * 64 + 62) = 1
            \<and> m_display st' ! (30 * 64 + 0) = 1)"
proof -
  let ?w = "poised chip8_original 0xd015 (0xd0, 0x00) [62, 30, 0, 0, 0, 0, 0, 0, 0, 0, 0, 0, 0, 0, 0, 0] 0"
  have r: "ready ?w"
    by (simp add: ready_defs poised_defs families_d0)
  have o: "m_opcode (m_state ?w) AND 0xf000 = 0xd000"
    by (simp add: poised_defs)
  have f: "has_flag ?w draw_legacy"
    by (rule preset_flags(1) [THEN conjunct2, THEN conjunct2, THEN conjunct2]) (simp add: poised_defs)
  have b: "unat (m_index (m_registers ?w)) + unat (m_n (m_state ?w)) \<le> c_maxMemory"
    by (simp add: poised_defs)
  have n: "unat (m_n (m_state ?w)) = 5"
    by (simp add: poised_defs)
  have c: "coord ?w = (62, 30)"
    by (simp add: coord_def poised_defs)
  have t: "target ?w (3, 0) = 1 * 64 + 62" "target ?w (0, 3) = 30 * 64 + 1"
    by (simp_all add: target_def c c_displayWidth_def c_displayHeight_def)
  have s: "sprite_bit ?w (3, 0)" "sprite_bit ?w (0, 3)" "sprite_bit ?w (2, 0)" "sprite_bit ?w (0, 2)"
    by (simp_all add: sprite_bit_def font_bytes bit_numeral_simps) (simp_all add: poised_defs)
  have d: "m_display ?w ! k = 0" if "k < 2048" for k
    using that by (simp add: poised_defs)
  from draw_legacy_skips [OF r o f b, of 0] obtain st' where e: "execute 0 ?w = Some st'"
    and p: "\<forall>y < unat (m_n (m_state ?w)). \<forall>x < 8.
              (c_displayHeight < snd (coord ?w) + y \<or> c_displayWidth < fst (coord ?w) + x \<longrightarrow>
                 m_display st' ! target ?w (y, x) = m_display ?w ! target ?w (y, x))
            \<and> (\<not> (c_displayHeight < snd (coord ?w) + y \<or> c_displayWidth < fst (coord ?w) + x) \<longrightarrow>
                 m_display st' ! target ?w (y, x) =
                   m_display ?w ! target ?w (y, x) XOR of_bool8 (sprite_bit ?w (y, x)))
            \<and> (snd (coord ?w) + y = c_displayHeight \<and> fst (coord ?w) + x < c_displayWidth \<longrightarrow>
                 m_display st' ! (0 * c_displayWidth + (fst (coord ?w) + x)) =
                   m_display ?w ! (0 * c_displayWidth + (fst (coord ?w) + x))
                     XOR of_bool8 (sprite_bit ?w (y, x)))
            \<and> (fst (coord ?w) + x = c_displayWidth \<and> snd (coord ?w) + y < c_displayHeight \<longrightarrow>
                 m_display st' ! ((snd (coord ?w) + y) * c_displayWidth + 0) =
                   m_display ?w ! ((snd (coord ?w) + y) * c_displayWidth + 0)
                     XOR of_bool8 (sprite_bit ?w (y, x)))"
    by blast
  have "m_display st' ! (1 * 64 + 62) = 0"
    using p [rule_format, of 3 0] by (simp add: n c t d c_displayWidth_def c_displayHeight_def)
  moreover have "m_display st' ! (30 * 64 + 1) = 0"
    using p [rule_format, of 0 3] by (simp add: n c t d c_displayWidth_def c_displayHeight_def)
  moreover have "m_display st' ! (0 * 64 + 62) = 1"
    using p [rule_format, of 2 0, THEN conjunct2, THEN conjunct2, THEN conjunct1]
    by (simp add: n c s d c_displayWidth_def c_displayHeight_def of_bool8_def)
  moreover have "m_display st' ! (30 * 64 + 0) = 1"
    using p [rule_format, of 0 2, THEN conjunct2, THEN conjunct2, THEN conjunct2]
    by (simp add: n c s d c_displayWidth_def c_displayHeight_def of_bool8_def)
  ultimately show ?thesis
    using r f c s d [of 62] d [of 1920] e by simp
qed

text \<open>
  C6. For every display, sprite and position, in every flag setting: the draw instruction
  (0xDXYN) sets the flag register to 1 if at least one display cell goes from 1 to 0 in
  the draw and to 0 otherwise, and changes no other register; and if the second of two
  draws in succession finds registers x and y as the first did (the sprite data is the
  same, as a draw changes neither the memory nor the index register), then it restores
  the display of before the first draw, and its flag is 1 whenever the first draw set a
  cell to 1.
\<close>

theorem draw_collision_and_self_inverse:
  assumes "ready st" and "m_opcode (m_state st) AND 0xf000 = 0xd000"
    and "unat (m_index (m_registers st)) + unat (m_n (m_state st)) \<le> c_maxMemory"
  shows "\<exists>st1. execute rnd st = Some st1
           \<and> regs st1 = (regs st)
                [15 := of_bool8 (\<exists>k < c_displaySize. m_display st ! k = 1 \<and> m_display st1 ! k = 0)]
           \<and> (regs st1 ! x_of st = regs st ! x_of st \<and> regs st1 ! y_of st = regs st ! y_of st \<longrightarrow>
                (\<exists>st2. execute rnd' st1 = Some st2
                   \<and> m_display st2 = m_display st
                   \<and> ((\<exists>k < c_displaySize. m_display st ! k \<noteq> 1 \<and> m_display st1 ! k = 1) \<longrightarrow>
                        regs st2 ! 15 = 1)))"
proof -
  note n = ready_xy(3) [OF assms(1)]
  have len: "length (m_display st) = c_displaySize" "length (regs st) = 16"
    using ready_sized [OF assms(1)] by (simp_all add: sized_def)
  let ?d1 = "blit_display (target st) (sprite_bit st) (drawn st) (m_display st)"
  let ?f1 = "of_bool8 (\<exists>p \<in> set (drawn st). sprite_bit st p \<and> m_display st ! target st p = 1)"
  let ?st1 = "update_flag ?f1 (st\<lparr>m_display := ?d1\<rparr>)"
  have e: "execute rnd st = Some ?st1"
    using current_d0 [OF assms(1,2)] exec_d0 [OF assms(1,3)]
    by (simp add: execute_current bodies_other)
  have cell: "?d1 ! k = m_display st ! k
      XOR of_bool8 (\<exists>p \<in> set (drawn st). target st p = k \<and> sprite_bit st p)"
    if "k < c_displaySize" for k
    using that by (simp add: blit_nth len)
  have one: "(1 :: u8) XOR of_bool8 t = 0 \<longleftrightarrow> t" for t
    by (simp add: of_bool8_def)
  have flag: "(\<exists>p \<in> set (drawn st). sprite_bit st p \<and> m_display st ! target st p = 1)
      = (\<exists>k < c_displaySize. m_display st ! k = 1 \<and> ?d1 ! k = 0)"
  proof
    assume "\<exists>p \<in> set (drawn st). sprite_bit st p \<and> m_display st ! target st p = 1"
    then obtain p where p: "p \<in> set (drawn st)" "sprite_bit st p" "m_display st ! target st p = 1"
      by blast
    have "?d1 ! target st p = 0"
      using p cell [OF target_lt [of st p]] by (auto simp: of_bool8_def)
    then show "\<exists>k < c_displaySize. m_display st ! k = 1 \<and> ?d1 ! k = 0"
      using p(3) target_lt [of st p] by blast
  next
    assume "\<exists>k < c_displaySize. m_display st ! k = 1 \<and> ?d1 ! k = 0"
    then obtain k where k: "k < c_displaySize" "m_display st ! k = 1" "?d1 ! k = 0"
      by blast
    from k(3) cell [OF k(1)] k(2)
    have "\<exists>p \<in> set (drawn st). target st p = k \<and> sprite_bit st p"
      by (simp add: one)
    then show "\<exists>p \<in> set (drawn st). sprite_bit st p \<and> m_display st ! target st p = 1"
      using k(2) by blast
  qed
  have r1: "regs ?st1 = (regs st)[15 := of_bool8 (\<exists>k < c_displaySize. m_display st ! k = 1 \<and> m_display ?st1 ! k = 0)]"
    by (simp add: update_flag_def flag)
  have second: "\<exists>st2. execute rnd' ?st1 = Some st2
                   \<and> m_display st2 = m_display st
                   \<and> ((\<exists>k < c_displaySize. m_display st ! k \<noteq> 1 \<and> m_display ?st1 ! k = 1) \<longrightarrow>
                        regs st2 ! 15 = 1)"
    if same: "regs ?st1 ! x_of st = regs st ! x_of st" "regs ?st1 ! y_of st = regs st ! y_of st"
  proof -
    have rd: "ready ?st1"
      using ready_sized [OF assms(1)]
      by (intro ready_frame [OF assms(1)]) (simp_all add: update_flag_def sized_def length_blit)
    have fr: "target ?st1 = target st" "sprite_bit ?st1 = sprite_bit st" "drawn ?st1 = drawn st"
      using same by (intro draw_frame; simp add: update_flag_def)+
    have m1: "m_display ?st1 = ?d1" by (simp add: update_flag_def)
    have b1: "unat (m_index (m_registers ?st1)) + unat (m_n (m_state ?st1)) \<le> c_maxMemory"
      using assms(3) by (simp add: update_flag_def)
    have o1: "m_opcode (m_state ?st1) AND 0xf000 = 0xd000"
      using assms(2) by (simp add: update_flag_def)
    let ?f2 = "of_bool8 (\<exists>p \<in> set (drawn st). sprite_bit st p \<and> ?d1 ! target st p = 1)"
    let ?st2 = "update_flag ?f2
                  (?st1\<lparr>m_display := blit_display (target st) (sprite_bit st) (drawn st) ?d1\<rparr>)"
    have e2: "execute rnd' ?st1 = Some ?st2"
      using current_d0 [OF rd o1] exec_d0 [OF rd b1]
      by (simp add: execute_current bodies_other fr m1)
    have d2: "m_display ?st2 = m_display st"
      by (simp add: update_flag_def blit_twice)
    have v2: "regs ?st2 ! 15 = ?f2"
      using len(2) by (simp add: update_flag_def)
    have f2: "?f2 = 1" if "\<exists>k < c_displaySize. m_display st ! k \<noteq> 1 \<and> ?d1 ! k = 1"
    proof -
      from that obtain k where k: "k < c_displaySize" "m_display st ! k \<noteq> 1" "?d1 ! k = 1"
        by blast
      have "\<exists>p \<in> set (drawn st). target st p = k \<and> sprite_bit st p"
        using k(2,3) cell [OF k(1)] by (auto simp: of_bool8_def split: if_splits)
      then have "\<exists>p \<in> set (drawn st). sprite_bit st p \<and> ?d1 ! target st p = 1"
        using k(3) by blast
      then show ?thesis by (simp add: of_bool8_def)
    qed
    have imp: "regs ?st2 ! 15 = 1"
      if "\<exists>k < c_displaySize. m_display st ! k \<noteq> 1 \<and> m_display ?st1 ! k = 1"
      using f2 that v2 by (simp only: m1)
    show ?thesis
      using e2 d2 imp by blast
  qed
  show ?thesis
    using e r1 second by (intro exI [of _ ?st1]) blast
qed

theorem draw_collision_and_self_inverse_witness:
  "ready (poised chip8_xochip 0xd015 (0xd0, 0x00) [0, 0, 0, 0, 0, 0, 0, 0, 0, 0, 0, 0, 0, 0, 0, 0] 0)
   \<and> (\<exists>st1 st2.
         execute 0 (poised chip8_xochip 0xd015 (0xd0, 0x00) [0, 0, 0, 0, 0, 0, 0, 0, 0, 0, 0, 0, 0, 0, 0, 0] 0)
           = Some st1
         \<and> regs st1 ! 15 = 0 \<and> m_display st1 ! 0 = 1
         \<and> execute 0 st1 = Some st2
         \<and> m_display st2
             = m_display (poised chip8_xochip 0xd015 (0xd0, 0x00) [0, 0, 0, 0, 0, 0, 0, 0, 0, 0, 0, 0, 0, 0, 0, 0] 0)
         \<and> regs st2 ! 15 = 1)"
proof -
  let ?w = "poised chip8_xochip 0xd015 (0xd0, 0x00) [0, 0, 0, 0, 0, 0, 0, 0, 0, 0, 0, 0, 0, 0, 0, 0] 0"
  have r: "ready ?w"
    by (simp add: ready_defs poised_defs families_d0)
  have o: "m_opcode (m_state ?w) AND 0xf000 = 0xd000"
    by (simp add: poised_defs)
  have b: "unat (m_index (m_registers ?w)) + unat (m_n (m_state ?w)) \<le> c_maxMemory"
    by (simp add: poised_defs)
  have n: "unat (m_n (m_state ?w)) = 5" and xy: "x_of ?w = 0" "y_of ?w = 1"
    by (simp_all add: poised_defs)
  have vs: "regs ?w = [0, 0, 0, 0, 0, 0, 0, 0, 0, 0, 0, 0, 0, 0, 0, 0]"
    by (simp add: poised_defs)
  have c: "coord ?w = (0, 0)"
    by (simp add: coord_def poised_defs)
  have t: "target ?w (0, 0) = 0"
    by (simp add: target_def c)
  have s: "sprite_bit ?w (0, 0)"
    by (simp add: sprite_bit_def font_bytes bit_numeral_simps) (simp add: poised_defs)
  have k: "\<not> skipped ?w (0, 0)"
    by (simp add: skipped_def c c_displayWidth_def c_displayHeight_def)
  have d: "m_display ?w ! k = 0" if "k < c_displaySize" for k
    using that by (simp add: poised_defs)
  from draw_collision_and_self_inverse [OF r o b, of 0 0] obtain st1
    where e1: "execute 0 ?w = Some st1"
      and r1: "regs st1 = (regs ?w)
                 [15 := of_bool8 (\<exists>k < c_displaySize. m_display ?w ! k = 1 \<and> m_display st1 ! k = 0)]"
      and again: "regs st1 ! x_of ?w = regs ?w ! x_of ?w \<and> regs st1 ! y_of ?w = regs ?w ! y_of ?w \<longrightarrow>
                (\<exists>st2. execute 0 st1 = Some st2
                   \<and> m_display st2 = m_display ?w
                   \<and> ((\<exists>k < c_displaySize. m_display ?w ! k \<noteq> 1 \<and> m_display st1 ! k = 1) \<longrightarrow>
                        regs st2 ! 15 = 1))"
    by blast
  have no: "(\<exists>k < c_displaySize. m_display ?w ! k = 1 \<and> m_display st1 ! k = 0) = False"
    using d by fastforce
  have v1: "regs st1 = (regs ?w)[15 := 0]"
    using r1 by (simp only: no of_bool8_def if_False)
  have f1: "regs st1 ! 15 = 0" and same: "regs st1 ! x_of ?w = regs ?w ! x_of ?w"
      "regs st1 ! y_of ?w = regs ?w ! y_of ?w"
    by (simp_all add: v1 vs xy)
  from draw_cells [OF r o b, of 0] e1
  have "m_display st1 ! target ?w (0, 0) =
          m_display ?w ! target ?w (0, 0) XOR of_bool8 (\<not> skipped ?w (0, 0) \<and> sprite_bit ?w (0, 0))"
    by (auto simp: n)
  moreover have d0: "m_display ?w ! 0 = 0" and z: "0 < c_displaySize"
    by (simp_all add: poised_defs)
  ultimately have p: "m_display st1 ! 0 = 1"
    by (simp add: t s k of_bool8_def)
  then have "\<exists>k < c_displaySize. m_display ?w ! k \<noteq> 1 \<and> m_display st1 ! k = 1"
    using d0 z by (intro exI [of _ 0]) simp
  with again same obtain st2 where "execute 0 st1 = Some st2" "m_display st2 = m_display ?w"
    "regs st2 ! 15 = 1"
    by blast
  then show ?thesis
    using r e1 f1 p by blast
qed

section \<open>The states a step runs in\<close>

text \<open>
  A constructed interpreter has arrays of the declared sizes, with or without a program
  loaded; a step that returns keeps them; and in a state that is not waiting for a key
  the instruction of a step runs in a \<open>ready\<close> state. So the theorems above, stated for
  \<open>ready\<close> states, are about every instruction a run of the interpreter executes after
  a fetch.
\<close>

lemma sized_new: "sized (interpreter_new fl uninit)"
  by (simp add: sized_def interpreter_new_def c_fontset_def c_maxMemory_def)

lemma sized_rom_loaded: "length rom \<le> c_maxMemory - unat c_romStartAddress \<Longrightarrow> sized (rom_loaded fl rom)"
  by (simp add: sized_def rom_loaded_def interpreter_new_def c_fontset_def c_maxMemory_def
      c_romStartAddress_def set_data_def Let_def)

lemma advance_runs_ready:
  assumes "sized st" and "\<not> m_isWaitingForInput st"
    and "advance key_buffer rnd elapsed_ms now st = Some st'"
  shows "\<exists>s mid. ready s \<and> execute rnd s = Some mid \<and> st' = update_timers elapsed_ms now mid"
proof -
  from assms(3) obtain mid where c: "cycle key_buffer rnd st = Some mid"
    and t: "st' = update_timers elapsed_ms now mid"
    by (auto simp: advance_def split: Option.bind_splits)
  from c assms(2) obtain prev keys s1 s where
      p: "memcpy (m_prev_key (m_input st)) 0 (m_key (m_input st)) 0 c_maxKeys = Some prev"
    and k: "memcpy (m_key (m_input st)) 0 key_buffer 0 c_maxKeys = Some keys"
    and f: "fetch (st\<lparr>m_input := \<lparr>m_key = keys, m_prev_key = prev\<rparr>\<rparr>) = Some s1"
    and d: "decode s1 = Some s" and e: "execute rnd s = Some mid"
    by (auto simp: cycle_def Let_def split: Option.bind_splits)
  have "length prev = c_maxKeys" "length keys = c_maxKeys"
    using p k assms(1) by (auto simp: memcpy_def sized_def split: if_splits)
  then have "sized (st\<lparr>m_input := \<lparr>m_key = keys, m_prev_key = prev\<rparr>\<rparr>)"
    using assms(1) by (simp add: sized_def)
  then have "ready s" using f d by (rule fetch_decode_ready)
  then show ?thesis using e t by blast
qed

lemma for_each_inv:
  assumes "\<And>i s s'. I s \<Longrightarrow> body i s = Some s' \<Longrightarrow> I s'"
    and "I s" and "for_each xs body s = Some s'"
  shows "I s'"
  using assms(2,3)
proof (induction xs arbitrary: s)
  case Nil
  then show ?case by simp
next
  case (Cons i xs)
  then show ?case using assms(1) by (auto split: option.splits)
qed

lemma draw_pixel_length:
  "draw_pixel legacy coordx coordyy sprite x acc = Some acc' \<Longrightarrow>
     length (fst acc') = length (fst acc)"
  by (auto simp: draw_pixel_def Let_def rd_def wr_def split: if_splits Option.bind_splits)

lemma draw_row_length:
  assumes "draw_row legacy coordx coordy mem index y acc = Some acc'"
  shows "length (fst acc') = length (fst acc)"
proof (cases "legacy \<and> c_displayHeight < coordy + y")
  case True
  then show ?thesis using assms by (simp add: draw_row_def)
next
  case False
  then obtain sprite where
    "for_each [0..<8] (draw_pixel legacy coordx ((coordy + y) AND (c_displayHeight - 1)) sprite) acc
       = Some acc'"
    using assms by (auto simp: draw_row_def Let_def split: Option.bind_splits)
  then show ?thesis
    by (rule for_each_inv [where I = "\<lambda>s. length (fst s) = length (fst acc)", rotated 2])
       (simp_all add: draw_pixel_length)
qed

lemma body_d0_00_sized:
  assumes "sized st" and "body_d0_00 st = Some st'"
  shows "sized st'"
proof -
  from assms(2) obtain acc where
    f: "for_each [0..<unat (m_n (m_state st))]
          (draw_row (has_flag st draw_legacy)
             (unat (regs st ! x_of st) AND (c_displayWidth - 1))
             (unat (regs st ! y_of st) AND (c_displayHeight - 1))
             (m_data (m_memory st)) (unat (m_index (m_registers st))))
          (m_display st, 0) = Some acc"
    and s: "st' = update_flag (snd acc) (st\<lparr>m_display := fst acc\<rparr>)"
    by (auto simp: body_d0_00_def get_v_def rd_def Let_def split: Option.bind_splits if_splits)
  have "length (fst acc) = length (fst (m_display st, 0 :: u8))"
    by (rule for_each_inv [where I = "\<lambda>s. length (fst s) = length (fst (m_display st, 0 :: u8))", OF _ _ f])
       (simp_all add: draw_row_length)
  then show ?thesis using assms(1) s by (simp add: sized_def update_flag_def)
qed

lemma simple_bodies_sized:
  assumes "sized st"
  shows "body_00_e0 st = Some st' \<Longrightarrow> sized st'"
    and "body_00_ee st = Some st' \<Longrightarrow> sized st'"
    and "body_10_00 st = Some st' \<Longrightarrow> sized st'"
    and "body_20_00 st = Some st' \<Longrightarrow> sized st'"
    and "body_30_00 st = Some st' \<Longrightarrow> sized st'"
    and "body_40_00 st = Some st' \<Longrightarrow> sized st'"
    and "body_50_00 st = Some st' \<Longrightarrow> sized st'"
    and "body_60_00 st = Some st' \<Longrightarrow> sized st'"
    and "body_70_00 st = Some st' \<Longrightarrow> sized st'"
    and "body_80_00 st = Some st' \<Longrightarrow> sized st'"
    and "logical f st = Some st' \<Longrightarrow> sized st'"
    and "body_80_04 st = Some st' \<Longrightarrow> sized st'"
    and "subtract a b st = Some st' \<Longrightarrow> sized st'"
    and "body_80_06 st = Some st' \<Longrightarrow> sized st'"
    and "body_80_0e st = Some st' \<Longrightarrow> sized st'"
    and "body_90_00 st = Some st' \<Longrightarrow> sized st'"
    and "body_a0_00 st = Some st' \<Longrightarrow> sized st'"
    and "body_b0_00 st = Some st' \<Longrightarrow> sized st'"
    and "body_c0_00 rnd st = Some st' \<Longrightarrow> sized st'"
    and "body_e0_9e st = Some st' \<Longrightarrow> sized st'"
    and "body_e0_a1 st = Some st' \<Longrightarrow> sized st'"
    and "body_f0_07 st = Some st' \<Longrightarrow> sized st'"
    and "body_f0_0a st = Some st' \<Longrightarrow> sized st'"
    and "body_f0_15 st = Some st' \<Longrightarrow> sized st'"
    and "body_f0_18 st = Some st' \<Longrightarrow> sized st'"
    and "body_f0_1e st = Some st' \<Longrightarrow> sized st'"
    and "body_f0_29 st = Some st' \<Longrightarrow> sized st'"
    and "body_f0_33 st = Some st' \<Longrightarrow> sized st'"
    and "body_f0_55 st = Some st' \<Longrightarrow> sized st'"
    and "body_f0_65 st = Some st' \<Longrightarrow> sized st'"
  using assms
  by (auto simp: sized_def body_00_e0_def body_00_ee_def body_10_00_def body_20_00_def
      body_30_00_def body_40_00_def body_50_00_def body_60_00_def body_70_00_def body_80_00_def
      logical_def body_80_04_def subtract_def body_80_06_def body_80_0e_def body_90_00_def
      body_a0_00_def body_b0_00_def body_c0_00_def body_e0_9e_def body_e0_a1_def body_f0_07_def
      body_f0_0a_def body_f0_15_def body_f0_18_def body_f0_1e_def body_f0_29_def body_f0_33_def
      body_f0_55_def body_f0_65_def m_font_def memcpy_def
      get_v_def set_v_def rd_def wr_def set_pc_def set_index_def set_data_def skip_if_def
      update_flag_def Let_def unimplemented_def c_displaySize_def
      split: if_splits Option.bind_splits option.splits)

lemma execute_sized:
  assumes "sized st" and "execute rnd st = Some st'"
  shows "sized st'"
proof -
  from assms(2) obtain k where b: "instruction_body k rnd st = Some st'"
    by (auto simp: execute_def split: option.splits)
  note s = simple_bodies_sized [OF assms(1)] body_d0_00_sized [OF assms(1)]
  from b show ?thesis
    unfolding instruction_body_def body_80_01_def body_80_02_def body_80_03_def body_80_05_def
      body_80_07_def body_00_00_def unimplemented_def
    by (auto split: if_splits Option.bind_splits dest: s)
qed

lemma advance_sized:
  assumes "sized st" and "advance key_buffer rnd elapsed_ms now st = Some st'"
  shows "sized st'"
proof -
  from assms(2) obtain mid where c: "cycle key_buffer rnd st = Some mid"
    and t: "st' = update_timers elapsed_ms now mid"
    by (auto simp: advance_def split: Option.bind_splits)
  from c obtain prev keys s where
      p: "memcpy (m_prev_key (m_input st)) 0 (m_key (m_input st)) 0 c_maxKeys = Some prev"
    and k: "memcpy (m_key (m_input st)) 0 key_buffer 0 c_maxKeys = Some keys"
    and s: "(\<exists>s1. fetch (st\<lparr>m_input := \<lparr>m_key = keys, m_prev_key = prev\<rparr>\<rparr>) = Some s1
               \<and> decode s1 = Some s)
            \<or> s = st\<lparr>m_input := \<lparr>m_key = keys, m_prev_key = prev\<rparr>\<rparr>"
    and e: "execute rnd s = Some mid"
    by (auto simp: cycle_def Let_def split: Option.bind_splits if_splits)
  have "length prev = c_maxKeys" "length keys = c_maxKeys"
    using p k assms(1) by (auto simp: memcpy_def sized_def split: if_splits)
  then have z: "sized (st\<lparr>m_input := \<lparr>m_key = keys, m_prev_key = prev\<rparr>\<rparr>)"
    using assms(1) by (simp add: sized_def)
  have "sized s"
    using s z by (auto dest: fetch_decode_ready [OF z] ready_sized)
  then have "sized mid" using e by (rule execute_sized)
  then show ?thesis using t by (simp add: update_timers_def sized_def Let_def)
qed

end
